theory Spec2Isabelle
  imports Main "HOL-Library.Sublist"
begin

section \<open>Strings\<close>

text \<open>
  JavaScript strings are modelled as \<^typ>\<open>string\<close>, one \<^typ>\<open>char\<close> per code unit
  (code units below 256).  \<open>String.prototype.trim\<close> removes white space and line
  terminators from both ends; in this range these are the code units 9 to 13, 32 and 160.
\<close>

definition isWhiteSpace :: "char \<Rightarrow> bool" where
  "isWhiteSpace c = ((of_char c :: nat) \<in> {9, 10, 11, 12, 13, 32, 160})"

definition trimStart :: "string \<Rightarrow> string" where
  "trimStart s = dropWhile isWhiteSpace s"

definition trimEnd :: "string \<Rightarrow> string" where
  "trimEnd s = rev (dropWhile isWhiteSpace (rev s))"

definition trim :: "string \<Rightarrow> string" where
  "trim s = trimEnd (trimStart s)"

text \<open>\<open>s.startsWith(p)\<close>.\<close>

definition startsWith :: "string \<Rightarrow> string \<Rightarrow> bool" where
  "startsWith s p = (take (length p) s = p)"

text \<open>\<open>Array.prototype.join\<close> on an array of strings.\<close>

fun array_join :: "string \<Rightarrow> string list \<Rightarrow> string" where
  "array_join sep [] = []"
| "array_join sep [x] = x"
| "array_join sep (x # y # ys) = x @ sep @ array_join sep (y # ys)"

text \<open>The lines of a text: the pieces between its newline characters.\<close>

fun lines_of :: "string \<Rightarrow> string list" where
  "lines_of [] = [[]]"
| "lines_of (c # cs) =
     (if c = CHR ''\<newline>'' then [] # lines_of cs
      else (case lines_of cs of [] \<Rightarrow> [[c]] | l # ls \<Rightarrow> (c # l) # ls))"

section \<open>The schema graph\<close>

text \<open>
  The part of graphql-js's schema objects that the generator reads.  An argument and a
  field carry the text that \<open>type.toString()\<close> returns for their type.  A description
  is \<open>Maybe<string>\<close>: \<open>None\<close> stands for \<open>null\<close> and \<open>undefined\<close>.

  \<open>getFields()\<close> and \<open>getTypeMap()\<close> return objects keyed by name; the lists below
  are what \<open>Object.entries\<close> yields for them: the entries in insertion order, since a
  GraphQL name is never an integer index.  The keys of an object are unique, which
  \<open>unique_keys\<close> states.  The generator takes the name of a field or type from its key.

  A \<open>GraphQLObjectType\<close> is a heap object: \<open>ot_ref\<close> is its identity, and
  \<open>===\<close> between two object types compares identities, not contents.
\<close>

record GraphQLArgument =
  a_name :: string
  a_type :: string

record GraphQLField =
  f_description :: "string option"
  f_args :: "GraphQLArgument list"
  f_type :: string

record GraphQLObjectType =
  ot_ref :: nat
  ot_name :: string
  ot_description :: "string option"
  ot_fields :: "(string \<times> GraphQLField) list"

datatype GraphQLNamedType =
    ObjectType GraphQLObjectType
  | ScalarType string
  | InterfaceType string
  | UnionType string
  | EnumType string
  | InputObjectType string

record GraphQLSchema =
  queryType :: "GraphQLObjectType option"
  mutationType :: "GraphQLObjectType option"
  subscriptionType :: "GraphQLObjectType option"
  typeMap :: "(string \<times> GraphQLNamedType) list"

definition unique_keys :: "(string \<times> 'v) list \<Rightarrow> bool" where
  "unique_keys entries = distinct (map fst entries)"

text \<open>\<open>type === root\<close>, where \<open>root\<close> is a root type of the schema or \<open>undefined\<close>.\<close>

definition identical :: "GraphQLObjectType \<Rightarrow> GraphQLObjectType option \<Rightarrow> bool" where
  "identical t root = (case root of None \<Rightarrow> False | Some r \<Rightarrow> ot_ref t = ot_ref r)"

section \<open>The generator\<close>

record operation =
  op_name :: string
  op_type :: string
  op_content :: string

record type_doc =
  ty_name :: string
  ty_content :: string

definition getOperationType :: "GraphQLSchema \<Rightarrow> GraphQLObjectType \<Rightarrow> string" where
  "getOperationType schema fieldType =
     (if identical fieldType (queryType schema) then ''query''
      else if identical fieldType (mutationType schema) then ''mutation''
      else if identical fieldType (subscriptionType schema) then ''subscription''
      else ''type'')"

text \<open>The template literal \<open>mdxContent\<close> of \<open>processFields\<close>, trimmed.\<close>

definition operation_mdxContent :: "string \<Rightarrow> GraphQLField \<Rightarrow> string" where
  "operation_mdxContent fieldName field =
     (let args = map (\<lambda>arg. a_name arg @ '': '' @ a_type arg) (f_args field) in
      trim (''\<newline>---\<newline>title: '' @ fieldName
        @ ''\<newline>description: ''
        @ (case f_description field of Some d \<Rightarrow> d | None \<Rightarrow> ''Description for '' @ fieldName)
        @ ''\<newline>---\<newline>\<newline># '' @ fieldName
        @ ''\<newline>\<newline>\<newline>''
        @ (case f_description field of Some d \<Rightarrow> d | None \<Rightarrow> [])
        @ ''\<newline>\<newline>''
        @ (if length args > 0
           then ''## Arguments\<newline>\<newline>'' @ array_join ''\<newline>'' (map (\<lambda>arg. ''- '' @ arg) args)
           else [])
        @ ''\<newline>      ''))"

text \<open>The loop of \<open>processFields\<close> over \<open>Object.entries(fields)\<close>, pushing to \<open>operations\<close>.\<close>

fun processFields_loop ::
  "GraphQLSchema \<Rightarrow> GraphQLObjectType \<Rightarrow> (string \<times> GraphQLField) list \<Rightarrow> operation list \<Rightarrow> operation list"
where
  "processFields_loop schema t [] operations = operations"
| "processFields_loop schema t ((fieldName, field) # rest) operations =
     processFields_loop schema t rest
       (operations @ [\<lparr>op_name = fieldName, op_type = getOperationType schema t,
                        op_content = operation_mdxContent fieldName field\<rparr>])"

definition processFields ::
  "GraphQLSchema \<Rightarrow> GraphQLObjectType option \<Rightarrow> operation list \<Rightarrow> operation list"
where
  "processFields schema t operations =
     (case t of None \<Rightarrow> operations
      | Some ot \<Rightarrow> processFields_loop schema ot (ot_fields ot) operations)"

definition generateOperations :: "GraphQLSchema \<Rightarrow> operation list" where
  "generateOperations schema =
     (let operations = [];
          operations = processFields schema (queryType schema) operations;
          operations = processFields schema (mutationType schema) operations;
          operations = processFields schema (subscriptionType schema) operations
      in operations)"

text \<open>The template literal \<open>mdxContent\<close> of \<open>generateTypes\<close>, trimmed.\<close>

definition type_mdxContent :: "string \<Rightarrow> GraphQLObjectType \<Rightarrow> string" where
  "type_mdxContent typeName t =
     (let fieldDefinitions =
            map (\<lambda>(fieldName, field). ''- '' @ fieldName @ '': '' @ f_type field) (ot_fields t) in
      trim (''\<newline>---\<newline>title: '' @ typeName
        @ ''\<newline>description: Type definition for '' @ typeName
        @ ''\<newline>---\<newline>\<newline>  # '' @ typeName
        @ ''\<newline>\<newline>  ''
        @ (case ot_description t of Some d \<Rightarrow> d | None \<Rightarrow> [])
        @ ''\<newline>\<newline>  ''
        @ (if length fieldDefinitions > 0
           then ''## Fields\<newline>\<newline>'' @ array_join ''\<newline>'' fieldDefinitions
           else [])
        @ ''\<newline>\<newline> ''))"

text \<open>The condition under which \<open>generateTypes\<close> emits a document for a type-map entry.\<close>

definition emits_type :: "GraphQLSchema \<Rightarrow> string \<Rightarrow> GraphQLNamedType \<Rightarrow> bool" where
  "emits_type schema typeName t =
     (case t of
        ObjectType ot \<Rightarrow>
          \<not> startsWith typeName ''__''
          \<and> \<not> identical ot (queryType schema)
          \<and> \<not> identical ot (mutationType schema)
          \<and> \<not> identical ot (subscriptionType schema)
      | _ \<Rightarrow> False)"

fun generateTypes_loop ::
  "GraphQLSchema \<Rightarrow> (string \<times> GraphQLNamedType) list \<Rightarrow> type_doc list \<Rightarrow> type_doc list"
where
  "generateTypes_loop schema [] types = types"
| "generateTypes_loop schema ((typeName, t) # rest) types =
     generateTypes_loop schema rest
       (case t of
          ObjectType ot \<Rightarrow>
            if emits_type schema typeName t
            then types @ [\<lparr>ty_name = typeName, ty_content = type_mdxContent typeName ot\<rparr>]
            else types
        | _ \<Rightarrow> types)"

definition generateTypes :: "GraphQLSchema \<Rightarrow> type_doc list" where
  "generateTypes schema = generateTypes_loop schema (typeMap schema) []"

section \<open>Writing the files\<close>

text \<open>
  \<open>generateAll\<close> runs against the schema loader, \<open>node:path\<close> and
  \<open>node:fs/promises\<close>, which are parameters here.  A call of the loader or of the
  file system either fails with an error or returns; the file system is a state that
  \<open>mkdir\<close> and \<open>writeFile\<close> transform.  Each function returns its result, the file
  system it leaves, and the steps it took, in order.
\<close>

text \<open>The failures of the loader and of the file system, as the spec names them.\<close>

datatype error = SchemaParseError | IOError

datatype step =
    LoadSchema string
  | GenerateOperations
  | GenerateTypes
  | Mkdir string
  | WriteFile string string

record 'fs node =
  loadSchema :: "string \<Rightarrow> error + GraphQLSchema"
  path_join :: "string \<Rightarrow> string \<Rightarrow> string"
  dirname :: "string \<Rightarrow> string"
  mkdir :: "string \<Rightarrow> 'fs \<Rightarrow> error + 'fs"
  writeFile :: "string \<Rightarrow> string \<Rightarrow> 'fs \<Rightarrow> error + 'fs"

type_synonym 'fs outcome = "(error + unit) \<times> 'fs \<times> step list"

definition write' :: "'fs node \<Rightarrow> string \<Rightarrow> string \<Rightarrow> 'fs \<Rightarrow> 'fs outcome" where
  "write' env path content fs =
     (case mkdir env (dirname env path) fs of
        Inl e \<Rightarrow> (Inl e, fs, [Mkdir (dirname env path)])
      | Inr fs1 \<Rightarrow>
          (case writeFile env path content fs1 of
             Inl e \<Rightarrow> (Inl e, fs1, [Mkdir (dirname env path), WriteFile path content])
           | Inr fs2 \<Rightarrow> (Inr (), fs2, [Mkdir (dirname env path), WriteFile path content])))"

definition operation_path :: "operation \<Rightarrow> string" where
  "operation_path operation = op_type operation @ ''/'' @ op_name operation @ ''.mdx''"

definition type_path :: "type_doc \<Rightarrow> string" where
  "type_path t = ''types/'' @ ty_name t @ ''.mdx''"

fun write_operations :: "'fs node \<Rightarrow> string \<Rightarrow> operation list \<Rightarrow> 'fs \<Rightarrow> 'fs outcome" where
  "write_operations env output [] fs = (Inr (), fs, [])"
| "write_operations env output (operation # rest) fs =
     (let path = path_join env output (operation_path operation) in
      case write' env path (op_content operation) fs of
        (Inl e, fs1, steps1) \<Rightarrow> (Inl e, fs1, steps1)
      | (Inr _, fs1, steps1) \<Rightarrow>
          (case write_operations env output rest fs1 of
             (r, fs2, steps2) \<Rightarrow> (r, fs2, steps1 @ steps2)))"

fun write_types :: "'fs node \<Rightarrow> string \<Rightarrow> type_doc list \<Rightarrow> 'fs \<Rightarrow> 'fs outcome" where
  "write_types env output [] fs = (Inr (), fs, [])"
| "write_types env output (t # rest) fs =
     (let path = path_join env output (type_path t) in
      case write' env path (ty_content t) fs of
        (Inl e, fs1, steps1) \<Rightarrow> (Inl e, fs1, steps1)
      | (Inr _, fs1, steps1) \<Rightarrow>
          (case write_types env output rest fs1 of
             (r, fs2, steps2) \<Rightarrow> (r, fs2, steps1 @ steps2)))"

definition generateAll :: "'fs node \<Rightarrow> string \<Rightarrow> string \<Rightarrow> 'fs \<Rightarrow> 'fs outcome" where
  "generateAll env input output fs =
     (case loadSchema env input of
        Inl e \<Rightarrow> (Inl e, fs, [LoadSchema input])
      | Inr schema \<Rightarrow>
          (let operations = generateOperations schema;
               types = generateTypes schema in
           case write_operations env output operations fs of
             (Inl e, fs1, steps1) \<Rightarrow>
               (Inl e, fs1, [LoadSchema input, GenerateOperations, GenerateTypes] @ steps1)
           | (Inr _, fs1, steps1) \<Rightarrow>
               (case write_types env output types fs1 of
                  (r, fs2, steps2) \<Rightarrow>
                    (r, fs2,
                     [LoadSchema input, GenerateOperations, GenerateTypes] @ steps1 @ steps2))))"

section \<open>The title formatter\<close>

text \<open>
  Modelled from the spec: \<open>idToTitle\<close> (\<open>@/utils/id-to-title\<close>), the title
  formatter, is not among the sources; only its test is.  The definitions follow the
  spec's algorithm: a boundary before each upper-case letter that follows a lower-case
  letter or a digit, a boundary at each hyphen, the first letter of each segment made
  upper case, the segments joined by one space (a segment that is empty is left out).
  The spec's second step, a boundary before a digit that follows a letter, is the
  parameter \<open>digit_boundary\<close>: the algorithm asks for it, while the spec's testable
  properties and the test of the repository require \<open>Request Id30\<close> for
  \<open>requestId30\<close>.  Letters and digits are the ASCII ones.
\<close>

text \<open>Modelled from the spec: the upper-case letters, lower-case letters and digits of an identifier.\<close>

definition isUpper :: "char \<Rightarrow> bool" where
  "isUpper c = (65 \<le> (of_char c :: nat) \<and> (of_char c :: nat) \<le> 90)"

definition isLower :: "char \<Rightarrow> bool" where
  "isLower c = (97 \<le> (of_char c :: nat) \<and> (of_char c :: nat) \<le> 122)"

definition isDigit :: "char \<Rightarrow> bool" where
  "isDigit c = (48 \<le> (of_char c :: nat) \<and> (of_char c :: nat) \<le> 57)"

text \<open>
  Modelled from the spec: step 4 of the title formatter, the first letter of a segment made
  upper case and the rest left as it is.
\<close>

definition capitalize :: "string \<Rightarrow> string" where
  "capitalize segment =
     (case segment of [] \<Rightarrow> []
      | c # cs \<Rightarrow> (if isLower c then char_of ((of_char c :: nat) - 32) else c) # cs)"

text \<open>
  Modelled from the spec: the segments of an identifier, steps 1 and 3 of the title
  formatter, and step 2 when \<open>digit_boundary\<close> is set.  \<open>current\<close> is the segment
  being read; it is empty at the start and after a hyphen.
\<close>

fun segments :: "bool \<Rightarrow> string \<Rightarrow> string \<Rightarrow> string list" where
  "segments digit_boundary current [] = [current]"
| "segments digit_boundary current (c # cs) =
     (if c = CHR ''-'' then current # segments digit_boundary [] cs
      else if current \<noteq> []
           \<and> ((isUpper c \<and> (isLower (last current) \<or> isDigit (last current)))
              \<or> (digit_boundary \<and> isDigit c
                  \<and> (isLower (last current) \<or> isUpper (last current))))
      then current # segments digit_boundary [c] cs
      else segments digit_boundary (current @ [c]) cs)"

text \<open>Modelled from the spec: step 5 of the title formatter, the segments joined by one space.\<close>

definition format_title :: "bool \<Rightarrow> string \<Rightarrow> string" where
  "format_title digit_boundary s =
     array_join '' ''
       (map capitalize (filter (\<lambda>segment. segment \<noteq> []) (segments digit_boundary [] s)))"

text \<open>
  The test \<open>Operation ID to Title\<close> of the repository, as a predicate on the function
  that it tests.
\<close>

definition test_Operation_ID_to_Title :: "(string \<Rightarrow> string) \<Rightarrow> bool" where
  "test_Operation_ID_to_Title idToTitle' =
     (idToTitle' ''getKey'' = ''Get Key''
      \<and> idToTitle' ''requestId30'' = ''Request Id30''
      \<and> idToTitle' ''requestId-30'' = ''Request Id 30'')"

text \<open>
  Modelled from the spec: \<open>idToTitle\<close>, the title formatter that the repository's test
  calls.  It is the spec's algorithm with all its five steps where that formatter gives
  the three values that the test of the repository asserts, and the algorithm without the
  boundary before digits otherwise: the test is the only source on the function.
\<close>

definition idToTitle :: "string \<Rightarrow> string" where
  "idToTitle s =
     (if test_Operation_ID_to_Title (format_title True) then format_title True s
      else format_title False s)"

section \<open>Notions used to state the properties\<close>

text \<open>The fields of a root operation type; none when the schema has no such root.\<close>

definition root_fields :: "GraphQLObjectType option \<Rightarrow> (string \<times> GraphQLField) list" where
  "root_fields root = (case root of None \<Rightarrow> [] | Some t \<Rightarrow> ot_fields t)"

text \<open>The identities of the root operation types that the schema has.\<close>

definition root_refs :: "GraphQLSchema \<Rightarrow> nat list" where
  "root_refs schema =
     map ot_ref (concat (map (\<lambda>root. case root of None \<Rightarrow> [] | Some t \<Rightarrow> [t])
       [queryType schema, mutationType schema, subscriptionType schema]))"

text \<open>
  The output paths of a run, relative to the output directory: the template literals
  that \<open>generateAll\<close> joins to \<open>output\<close>, in the order of its two loops.
\<close>

definition output_paths :: "GraphQLSchema \<Rightarrow> string list" where
  "output_paths schema =
     map operation_path (generateOperations schema) @ map type_path (generateTypes schema)"

text \<open>The document that \<open>generateTypes\<close> pushes for a type-map entry, if any.\<close>

definition pushed_types :: "GraphQLSchema \<Rightarrow> string \<times> GraphQLNamedType \<Rightarrow> type_doc list" where
  "pushed_types schema entry =
     (case entry of
        (typeName, ObjectType ot) \<Rightarrow>
          if emits_type schema typeName (ObjectType ot)
          then [\<lparr>ty_name = typeName, ty_content = type_mdxContent typeName ot\<rparr>] else []
      | _ \<Rightarrow> [])"

text \<open>The steps that are file system effects: creating a directory, writing a file.\<close>

fun is_fs_step :: "step \<Rightarrow> bool" where
  "is_fs_step (Mkdir d) = True"
| "is_fs_step (WriteFile p c) = True"
| "is_fs_step _ = False"

text \<open>The files written by a sequence of steps: path and content, in order.\<close>

fun writes :: "step list \<Rightarrow> (string \<times> string) list" where
  "writes [] = []"
| "writes (WriteFile p c # steps) = (p, c) # writes steps"
| "writes (_ # steps) = writes steps"

text \<open>
  The effect of a sequence of steps on a file system: each \<open>Mkdir\<close> and
  \<open>WriteFile\<close> step is the call of \<open>mkdir\<close> or \<open>writeFile\<close> of the
  environment, in order; the first call that fails ends the sequence with its error and
  leaves the file system as it was before that call.
\<close>

fun replay :: "'fs node \<Rightarrow> step list \<Rightarrow> 'fs \<Rightarrow> (error + unit) \<times> 'fs" where
  "replay env [] fs = (Inr (), fs)"
| "replay env (Mkdir d # steps) fs =
     (case mkdir env d fs of Inl e \<Rightarrow> (Inl e, fs) | Inr fs1 \<Rightarrow> replay env steps fs1)"
| "replay env (WriteFile p c # steps) fs =
     (case writeFile env p c fs of Inl e \<Rightarrow> (Inl e, fs) | Inr fs1 \<Rightarrow> replay env steps fs1)"
| "replay env (_ # steps) fs = replay env steps fs"

text \<open>
  The files that a run is to write: the operation documents and then the type documents,
  in the order in which they were generated.
\<close>

definition planned_writes :: "'fs node \<Rightarrow> string \<Rightarrow> GraphQLSchema \<Rightarrow> (string \<times> string) list" where
  "planned_writes env output schema =
     map (\<lambda>operation. (path_join env output (operation_path operation), op_content operation))
       (generateOperations schema)
     @ map (\<lambda>t. (path_join env output (type_path t), ty_content t)) (generateTypes schema)"

text \<open>
  The front-matter block of a document: the \<open>---\<close> lines around the \<open>title\<close> and
  \<open>description\<close> entries.
\<close>

definition front_matter :: "string \<Rightarrow> string \<Rightarrow> string" where
  "front_matter title description =
     ''---\<newline>title: '' @ title @ ''\<newline>description: '' @ description @ ''\<newline>---\<newline>''"

text \<open>The operation members of a schema, in the order of the walk.\<close>

definition operation_members :: "GraphQLSchema \<Rightarrow> (string \<times> GraphQLField) list" where
  "operation_members schema =
     root_fields (queryType schema) @ root_fields (mutationType schema)
     @ root_fields (subscriptionType schema)"

text \<open>The type members of a schema: the object types that get a document, with their names.\<close>

definition type_members :: "GraphQLSchema \<Rightarrow> (string \<times> GraphQLObjectType) list" where
  "type_members schema =
     concat (map (\<lambda>(typeName, t).
        case t of ObjectType ot \<Rightarrow> if emits_type schema typeName t then [(typeName, ot)] else []
        | _ \<Rightarrow> []) (typeMap schema))"

text \<open>
  A section that lists entries: the heading, an empty line, and one line
  \<open>- <name>: <typeSignature>\<close> for each entry, in the order of the entries.
\<close>

definition listing :: "string \<Rightarrow> (string \<times> string) list \<Rightarrow> string" where
  "listing heading entries =
     array_join ''\<newline>''
       (heading # [] # map (\<lambda>(name, typeSignature). ''- '' @ name @ '': '' @ typeSignature) entries)"

text \<open>
  A level-1 heading line of Markdown with a given text: \<open>#\<close>, a space and the text,
  after at most three spaces of indentation.
\<close>

definition level1_heading :: "string \<Rightarrow> string \<Rightarrow> bool" where
  "level1_heading heading line =
     (\<exists>indent \<in> set [0, 1, 2, 3]. line = replicate indent CHR '' '' @ ''# '' @ heading)"

text \<open>A text that is not empty and does not end in white space, as every type signature.\<close>

definition ends_in_text :: "string \<Rightarrow> bool" where
  "ends_in_text s = (s \<noteq> [] \<and> \<not> isWhiteSpace (last s))"

section \<open>Example schemas\<close>

text \<open>
  A schema with the three root types, the object types \<open>Key\<close> (with a description and
  two fields) and \<open>Marker\<close> (with neither), scalars, an enum and an introspection type.
\<close>

definition getKey :: GraphQLField where
  "getKey = \<lparr>f_description = None, f_args = [\<lparr>a_name = ''id'', a_type = ''ID''\<rparr>], f_type = ''String''\<rparr>"

definition createKey :: GraphQLField where
  "createKey = \<lparr>f_description = Some ''Create a key'',
     f_args = [\<lparr>a_name = ''name'', a_type = ''String!''\<rparr>, \<lparr>a_name = ''ttl'', a_type = ''Int''\<rparr>],
     f_type = ''Key''\<rparr>"

definition keyChanged :: GraphQLField where
  "keyChanged = \<lparr>f_description = None, f_args = [], f_type = ''Key''\<rparr>"

definition Query :: GraphQLObjectType where
  "Query = \<lparr>ot_ref = 1, ot_name = ''Query'', ot_description = None,
     ot_fields = [(''getKey'', getKey), (''keyChanged'', keyChanged)]\<rparr>"

definition Mutation :: GraphQLObjectType where
  "Mutation = \<lparr>ot_ref = 2, ot_name = ''Mutation'', ot_description = None,
     ot_fields = [(''createKey'', createKey)]\<rparr>"

definition Subscription :: GraphQLObjectType where
  "Subscription = \<lparr>ot_ref = 3, ot_name = ''Subscription'', ot_description = None,
     ot_fields = [(''keyChanged'', keyChanged)]\<rparr>"

definition Key :: GraphQLObjectType where
  "Key = \<lparr>ot_ref = 4, ot_name = ''Key'', ot_description = Some ''An API key'',
     ot_fields = [(''id'', \<lparr>f_description = None, f_args = [], f_type = ''ID!''\<rparr>),
                  (''name'', \<lparr>f_description = None, f_args = [], f_type = ''String''\<rparr>)]\<rparr>"

definition Marker :: GraphQLObjectType where
  "Marker = \<lparr>ot_ref = 5, ot_name = ''Marker'', ot_description = None, ot_fields = []\<rparr>"

definition Schema_introspection :: GraphQLObjectType where
  "Schema_introspection = \<lparr>ot_ref = 6, ot_name = ''__Schema'', ot_description = None,
     ot_fields = [(''description'', \<lparr>f_description = None, f_args = [], f_type = ''String''\<rparr>)]\<rparr>"

definition keySchema :: GraphQLSchema where
  "keySchema = \<lparr>queryType = Some Query, mutationType = Some Mutation,
     subscriptionType = Some Subscription,
     typeMap = [(''Query'', ObjectType Query), (''ID'', ScalarType ''ID''),
                (''String'', ScalarType ''String''), (''Mutation'', ObjectType Mutation),
                (''Key'', ObjectType Key), (''Int'', ScalarType ''Int''),
                (''Subscription'', ObjectType Subscription), (''Marker'', ObjectType Marker),
                (''Role'', EnumType ''Role''),
                (''__Schema'', ObjectType Schema_introspection)]\<rparr>"

text \<open>
  A field without arguments and a type without fields whose descriptions are the text of
  a section heading.
\<close>

definition ping :: GraphQLField where
  "ping = \<lparr>f_description = Some ''## Arguments'', f_args = [], f_type = ''String''\<rparr>"

definition Note :: GraphQLObjectType where
  "Note = \<lparr>ot_ref = 8, ot_name = ''Note'', ot_description = Some ''## Fields'', ot_fields = []\<rparr>"

text \<open>A schema whose query and mutation roots are one and the same object.\<close>

definition Root :: GraphQLObjectType where
  "Root = \<lparr>ot_ref = 1, ot_name = ''Root'', ot_description = None,
     ot_fields = [(''getKey'', getKey)]\<rparr>"

definition sharedRootSchema :: GraphQLSchema where
  "sharedRootSchema = \<lparr>queryType = Some Root, mutationType = Some Root,
     subscriptionType = None,
     typeMap = [(''Root'', ObjectType Root), (''ID'', ScalarType ''ID''),
                (''String'', ScalarType ''String'')]\<rparr>"

text \<open>
  An environment whose loader knows one schema file and whose file system is the list of
  the files written so far.
\<close>

definition memoryNode :: "(string \<times> string) list node" where
  "memoryNode = \<lparr>
     loadSchema = (\<lambda>input. if input = ''./schema.graphql'' then Inr keySchema else Inl SchemaParseError),
     path_join = (\<lambda>a b. a @ ''/'' @ b),
     dirname = (\<lambda>p. rev (drop 1 (dropWhile (\<lambda>c. c \<noteq> CHR ''/'') (rev p)))),
     mkdir = (\<lambda>d files. Inr files),
     writeFile = (\<lambda>p c files. Inr (files @ [(p, c)]))\<rparr>"

text \<open>An object type that has the name of the query root of \<open>keySchema\<close> and is another object.\<close>

definition QueryNamesake :: GraphQLObjectType where
  "QueryNamesake = \<lparr>ot_ref = 7, ot_name = ''Query'', ot_description = None,
     ot_fields = [(''getKey'', getKey)]\<rparr>"

section \<open>The generator as maps over the schema\<close>

lemma processFields_loop_eq:
  "processFields_loop schema t entries operations =
     operations @ map (\<lambda>(fieldName, field).
        \<lparr>op_name = fieldName, op_type = getOperationType schema t,
         op_content = operation_mdxContent fieldName field\<rparr>) entries"
  by (induction entries arbitrary: operations) auto

lemma processFields_eq:
  "processFields schema root operations =
     operations @ (case root of None \<Rightarrow> []
       | Some t \<Rightarrow> map (\<lambda>(fieldName, field).
           \<lparr>op_name = fieldName, op_type = getOperationType schema t,
            op_content = operation_mdxContent fieldName field\<rparr>) (ot_fields t))"
  by (simp add: processFields_def processFields_loop_eq split: option.splits)

lemma generateOperations_eq:
  "generateOperations schema =
     processFields schema (queryType schema) []
     @ processFields schema (mutationType schema) []
     @ processFields schema (subscriptionType schema) []"
  by (simp add: generateOperations_def Let_def processFields_eq)

lemma generateTypes_loop_eq:
  "generateTypes_loop schema entries types =
     types @ concat (map (pushed_types schema) entries)"
proof (induction entries arbitrary: types)
  case Nil
  then show ?case by simp
next
  case (Cons e entries)
  obtain typeName t where e: "e = (typeName, t)" by (cases e)
  show ?case
    by (cases t) (simp_all add: e Cons.IH pushed_types_def emits_type_def)
qed

lemma generateTypes_eq:
  "generateTypes schema = concat (map (pushed_types schema) (typeMap schema))"
  by (simp add: generateTypes_def generateTypes_loop_eq)

lemma pushed_types_name:
  "map ty_name (pushed_types schema e) = (if emits_type schema (fst e) (snd e) then [fst e] else [])"
  by (cases e; cases "snd e") (auto simp: pushed_types_def emits_type_def)

lemma pushed_types_names:
  "map ty_name (concat (map (pushed_types schema) entries)) =
     map fst (filter (\<lambda>(typeName, t). emits_type schema typeName t) entries)"
  by (induction entries) (simp_all add: pushed_types_name case_prod_unfold)

lemma generateTypes_names:
  "map ty_name (generateTypes schema) =
     map fst (filter (\<lambda>(typeName, t). emits_type schema typeName t) (typeMap schema))"
  by (simp only: generateTypes_eq pushed_types_names)

section \<open>Output paths\<close>

lemma processFields_paths:
  "map operation_path (processFields schema root []) =
     (case root of None \<Rightarrow> []
      | Some t \<Rightarrow> map (\<lambda>(fieldName, field). getOperationType schema t @ ''/'' @ fieldName @ ''.mdx'')
          (ot_fields t))"
  by (simp add: processFields_eq operation_path_def case_prod_unfold comp_def split: option.splits)

lemma operation_paths_eq:
  assumes "distinct (root_refs schema)"
  shows "map operation_path (generateOperations schema) =
     map (\<lambda>(fieldName, field). ''query/'' @ fieldName @ ''.mdx'') (root_fields (queryType schema))
     @ map (\<lambda>(fieldName, field). ''mutation/'' @ fieldName @ ''.mdx'') (root_fields (mutationType schema))
     @ map (\<lambda>(fieldName, field). ''subscription/'' @ fieldName @ ''.mdx'') (root_fields (subscriptionType schema))"
  using assms
  by (auto simp add: generateOperations_eq processFields_paths root_fields_def root_refs_def
      getOperationType_def identical_def split: option.splits)

lemma type_paths_eq:
  "map type_path (generateTypes schema) =
     map (\<lambda>(typeName, t). ''types/'' @ typeName @ ''.mdx'')
       (filter (\<lambda>(typeName, t). emits_type schema typeName t) (typeMap schema))"
proof -
  have "map type_path (generateTypes schema) = map (\<lambda>n. ''types/'' @ n @ ''.mdx'') (map ty_name (generateTypes schema))"
    by (simp add: type_path_def comp_def)
  then show ?thesis
    by (simp add: generateTypes_names case_prod_unfold comp_def)
qed

lemma distinct_keyed_paths:
  assumes "unique_keys entries"
  shows "distinct (map (\<lambda>(k, v). dir @ k @ ''.mdx'') entries)"
proof -
  have "map (\<lambda>(k, v). dir @ k @ ''.mdx'') entries = map (\<lambda>k. dir @ k @ ''.mdx'') (map fst entries)"
    by (simp add: case_prod_unfold comp_def)
  moreover have "inj_on (\<lambda>k. dir @ k @ ''.mdx'') (set (map fst entries))"
    by (simp add: inj_on_def)
  ultimately show ?thesis
    using assms by (simp only: distinct_map unique_keys_def simp_thms)
qed

lemma unique_keys_filter: "unique_keys entries \<Longrightarrow> unique_keys (filter P entries)"
  by (simp add: unique_keys_def distinct_map_filter)

text \<open>
  Claim C1, as amended.  Take a schema whose root operation types are pairwise distinct
  objects, the field names of each root and the keys of the type map being unique, as
  the keys of an object are.  With N query fields, M mutation fields, K subscription
  fields and T entries of the type map for which \<open>generateTypes\<close> emits a document,
  the run has exactly N + M + K + T output paths, they are pairwise distinct, and they are
  the paths \<open>query/<name>.mdx\<close>, \<open>mutation/<name>.mdx\<close>,
  \<open>subscription/<name>.mdx\<close> and \<open>types/<name>.mdx\<close> of the members, in
  this order.
\<close>

theorem output_paths_partition:
  assumes "distinct (root_refs schema)"
    and "unique_keys (root_fields (queryType schema))"
    and "unique_keys (root_fields (mutationType schema))"
    and "unique_keys (root_fields (subscriptionType schema))"
    and "unique_keys (typeMap schema)"
  shows "length (output_paths schema) =
           length (root_fields (queryType schema)) + length (root_fields (mutationType schema))
           + length (root_fields (subscriptionType schema))
           + length (filter (\<lambda>(typeName, t). emits_type schema typeName t) (typeMap schema))
         \<and> distinct (output_paths schema)
         \<and> output_paths schema =
             map (\<lambda>(fieldName, field). ''query/'' @ fieldName @ ''.mdx'') (root_fields (queryType schema))
             @ map (\<lambda>(fieldName, field). ''mutation/'' @ fieldName @ ''.mdx'') (root_fields (mutationType schema))
             @ map (\<lambda>(fieldName, field). ''subscription/'' @ fieldName @ ''.mdx'') (root_fields (subscriptionType schema))
             @ map (\<lambda>(typeName, t). ''types/'' @ typeName @ ''.mdx'')
                 (filter (\<lambda>(typeName, t). emits_type schema typeName t) (typeMap schema))"
proof -
  let ?T = "filter (\<lambda>(typeName, t). emits_type schema typeName t) (typeMap schema)"
  have paths: "output_paths schema =
      map (\<lambda>(fieldName, field). ''query/'' @ fieldName @ ''.mdx'') (root_fields (queryType schema))
      @ map (\<lambda>(fieldName, field). ''mutation/'' @ fieldName @ ''.mdx'') (root_fields (mutationType schema))
      @ map (\<lambda>(fieldName, field). ''subscription/'' @ fieldName @ ''.mdx'') (root_fields (subscriptionType schema))
      @ map (\<lambda>(typeName, t). ''types/'' @ typeName @ ''.mdx'') ?T"
    by (simp only: output_paths_def operation_paths_eq[OF assms(1)] type_paths_eq append_assoc)
  have len: "length (output_paths schema) =
           length (root_fields (queryType schema)) + length (root_fields (mutationType schema))
           + length (root_fields (subscriptionType schema)) + length ?T"
    by (simp only: paths length_append length_map add.assoc)
  have "distinct (output_paths schema)"
    unfolding paths
    using distinct_keyed_paths[OF assms(2), of "''query/''"]
      distinct_keyed_paths[OF assms(3), of "''mutation/''"]
      distinct_keyed_paths[OF assms(4), of "''subscription/''"]
      distinct_keyed_paths[OF unique_keys_filter[OF assms(5)], of "''types/''"]
    by (auto simp: distinct_append)
  with paths len show ?thesis by blast
qed

text \<open>
  The hypotheses hold for \<open>keySchema\<close>, which yields six documents.
\<close>

theorem output_paths_partition_witness:
  "distinct (root_refs keySchema) \<and> unique_keys (typeMap keySchema)
   \<and> length (output_paths keySchema) = 2 + 1 + 1 + 2 \<and> distinct (output_paths keySchema)"
proof -
  have h1: "distinct (root_refs keySchema)" by code_simp
  have h2: "unique_keys (root_fields (queryType keySchema))" by code_simp
  have h3: "unique_keys (root_fields (mutationType keySchema))" by code_simp
  have h4: "unique_keys (root_fields (subscriptionType keySchema))" by code_simp
  have h5: "unique_keys (typeMap keySchema)" by code_simp
  have q: "length (root_fields (queryType keySchema)) = 2" by code_simp
  have m: "length (root_fields (mutationType keySchema)) = 1" by code_simp
  have s: "length (root_fields (subscriptionType keySchema)) = 1" by code_simp
  have t: "length (filter (\<lambda>(typeName, t). emits_type keySchema typeName t) (typeMap keySchema)) = 2"
    by code_simp
  note partition = output_paths_partition[OF h1 h2 h3 h4 h5]
  have len: "length (output_paths keySchema) = 2 + 1 + 1 + 2"
    using partition[THEN conjunct1] by (simp only: q m s t)
  have dist: "distinct (output_paths keySchema)"
    by (rule partition[THEN conjunct2, THEN conjunct1])
  from h1 h5 len dist show ?thesis by blast
qed

text \<open>
  Claim C1 as stated, for every schema graph, fails where one object is both the query
  and the mutation root: \<open>processFields\<close> runs over its fields twice, and
  \<open>getOperationType\<close> answers \<open>query\<close> both times, so two documents share a path.
\<close>

theorem output_paths_collide:
  "output_paths sharedRootSchema = [''query/getKey.mdx'', ''query/getKey.mdx'']
   \<and> \<not> distinct (output_paths sharedRootSchema)"
  by code_simp

section \<open>The steps of a run\<close>

lemma writes_append: "writes (xs @ ys) = writes xs @ writes ys"
  by (induction xs rule: writes.induct) simp_all

lemma write'_steps:
  assumes "write' env path content fs = (r, fs', steps)"
  shows "list_all is_fs_step steps"
    and "prefix (writes steps) [(path, content)]"
    and "r = Inr () \<Longrightarrow> writes steps = [(path, content)]"
  using assms by (auto simp: write'_def split: sum.splits)

lemma write_operations_steps:
  assumes "write_operations env output operations fs = (r, fs', steps)"
  shows "list_all is_fs_step steps
     \<and> prefix (writes steps)
         (map (\<lambda>operation. (path_join env output (operation_path operation), op_content operation)) operations)
     \<and> (r = Inr () \<longrightarrow> writes steps =
         map (\<lambda>operation. (path_join env output (operation_path operation), op_content operation)) operations)"
  using assms
proof (induction operations arbitrary: fs r fs' steps)
  case Nil
  then show ?case by simp
next
  case (Cons operation rest)
  let ?path = "path_join env output (operation_path operation)"
  obtain r1 fs1 steps1 where w: "write' env ?path (op_content operation) fs = (r1, fs1, steps1)"
    by (cases "write' env ?path (op_content operation) fs") auto
  note w1 = write'_steps[OF w]
  show ?case
  proof (cases r1)
    case (Inl e)
    with Cons.prems w have eq: "steps = steps1" "r = Inl e" by simp_all
    have "prefix [(?path, op_content operation)] ((?path, op_content operation) # ys)" for ys
      by simp
    with w1(2) have "prefix (writes steps1) ((?path, op_content operation) # ys)" for ys
      using prefix_order.trans by blast
    with w1(1) eq show ?thesis
      by simp
  next
    case (Inr u)
    obtain r2 fs2 steps2 where rest: "write_operations env output rest fs1 = (r2, fs2, steps2)"
      by (cases "write_operations env output rest fs1") auto
    from Cons.prems w Inr rest have eq: "steps = steps1 @ steps2" "r = r2" by simp_all
    from Inr w1(3) have s1: "writes steps1 = [(?path, op_content operation)]" by simp
    from Cons.IH[OF rest] w1(1) eq s1 show ?thesis
      by (simp add: writes_append)
  qed
qed

lemma write_types_steps:
  assumes "write_types env output types fs = (r, fs', steps)"
  shows "list_all is_fs_step steps
     \<and> prefix (writes steps) (map (\<lambda>t. (path_join env output (type_path t), ty_content t)) types)
     \<and> (r = Inr () \<longrightarrow> writes steps =
         map (\<lambda>t. (path_join env output (type_path t), ty_content t)) types)"
  using assms
proof (induction types arbitrary: fs r fs' steps)
  case Nil
  then show ?case by simp
next
  case (Cons t rest)
  let ?path = "path_join env output (type_path t)"
  obtain r1 fs1 steps1 where w: "write' env ?path (ty_content t) fs = (r1, fs1, steps1)"
    by (cases "write' env ?path (ty_content t) fs") auto
  note w1 = write'_steps[OF w]
  show ?case
  proof (cases r1)
    case (Inl e)
    with Cons.prems w have eq: "steps = steps1" "r = Inl e" by simp_all
    have "prefix [(?path, ty_content t)] ((?path, ty_content t) # ys)" for ys
      by simp
    with w1(2) have "prefix (writes steps1) ((?path, ty_content t) # ys)" for ys
      using prefix_order.trans by blast
    with w1(1) eq show ?thesis
      by simp
  next
    case (Inr u)
    obtain r2 fs2 steps2 where rest: "write_types env output rest fs1 = (r2, fs2, steps2)"
      by (cases "write_types env output rest fs1") auto
    from Cons.prems w Inr rest have eq: "steps = steps1 @ steps2" "r = r2" by simp_all
    from Inr w1(3) have s1: "writes steps1 = [(?path, ty_content t)]" by simp
    from Cons.IH[OF rest] w1(1) eq s1 show ?thesis
      by (simp add: writes_append)
  qed
qed

lemma generateAll_steps:
  assumes load: "loadSchema env input = Inr schema"
    and run: "generateAll env input output fs = (r, fs', steps)"
  shows "\<exists>fs_steps. steps = [LoadSchema input, GenerateOperations, GenerateTypes] @ fs_steps
     \<and> list_all is_fs_step fs_steps
     \<and> prefix (writes fs_steps) (planned_writes env output schema)
     \<and> (r = Inr () \<longrightarrow> writes fs_steps = planned_writes env output schema)"
proof -
  obtain r1 fs1 steps1 where ops:
    "write_operations env output (generateOperations schema) fs = (r1, fs1, steps1)"
    by (cases "write_operations env output (generateOperations schema) fs") auto
  note o = write_operations_steps[OF ops]
  show ?thesis
  proof (cases r1)
    case (Inl e)
    with load run ops have "steps = [LoadSchema input, GenerateOperations, GenerateTypes] @ steps1" "r = Inl e"
      by (simp_all add: generateAll_def Let_def)
    with o show ?thesis
      by (auto simp: planned_writes_def prefix_def)
  next
    case (Inr u)
    obtain r2 fs2 steps2 where tys:
      "write_types env output (generateTypes schema) fs1 = (r2, fs2, steps2)"
      by (cases "write_types env output (generateTypes schema) fs1") auto
    note t = write_types_steps[OF tys]
    from load run ops tys Inr
    have eq: "steps = [LoadSchema input, GenerateOperations, GenerateTypes] @ (steps1 @ steps2)" "r = r2"
      by (simp_all add: generateAll_def Let_def)
    from Inr o have s1: "writes steps1 =
       map (\<lambda>operation. (path_join env output (operation_path operation), op_content operation))
         (generateOperations schema)" by simp
    from o t eq s1 show ?thesis
      by (simp add: planned_writes_def writes_append)
  qed
qed

lemma writes_fs_steps:
  "writes ([LoadSchema input, GenerateOperations, GenerateTypes] @ fs_steps) = writes fs_steps"
  by simp

text \<open>
  Claim C8.  When the loader fails, \<open>generateAll\<close> returns the loader's error after
  the single step of loading: no directory is created, no file is written, and the file
  system is as it was.  When the loader returns a schema, the first three steps are
  loading and the two generations; every later step is a call of \<open>mkdir\<close> or
  \<open>writeFile\<close>, and every file written is one of the documents generated before.
\<close>

theorem generateAll_collects_before_writing:
  "(\<forall>e. loadSchema env input = Inl e \<longrightarrow>
      generateAll env input output fs = (Inl e, fs, [LoadSchema input]))
   \<and> (\<forall>schema. loadSchema env input = Inr schema \<longrightarrow>
      (\<exists>r fs' fs_steps.
         generateAll env input output fs =
           (r, fs', [LoadSchema input, GenerateOperations, GenerateTypes] @ fs_steps)
         \<and> list_all is_fs_step fs_steps
         \<and> set (writes fs_steps) \<subseteq> set (planned_writes env output schema)))"
proof (intro conjI allI impI)
  fix e assume "loadSchema env input = Inl e"
  then show "generateAll env input output fs = (Inl e, fs, [LoadSchema input])"
    by (simp add: generateAll_def)
next
  fix schema assume load: "loadSchema env input = Inr schema"
  obtain r fs' steps where run: "generateAll env input output fs = (r, fs', steps)"
    by (cases "generateAll env input output fs") auto
  from generateAll_steps[OF load run] obtain fs_steps where
    "steps = [LoadSchema input, GenerateOperations, GenerateTypes] @ fs_steps"
    "list_all is_fs_step fs_steps"
    "prefix (writes fs_steps) (planned_writes env output schema)"
    by blast
  with run show "\<exists>r fs' fs_steps.
         generateAll env input output fs =
           (r, fs', [LoadSchema input, GenerateOperations, GenerateTypes] @ fs_steps)
         \<and> list_all is_fs_step fs_steps
         \<and> set (writes fs_steps) \<subseteq> set (planned_writes env output schema)"
    using set_mono_prefix by blast
qed

text \<open>
  Both cases occur for \<open>memoryNode\<close>: a missing schema file, and the file that holds
  \<open>keySchema\<close>.
\<close>

theorem generateAll_collects_before_writing_witness:
  "loadSchema memoryNode ''./missing.graphql'' = Inl SchemaParseError
   \<and> generateAll memoryNode ''./missing.graphql'' ''out'' []
       = (Inl SchemaParseError, [], [LoadSchema ''./missing.graphql''])
   \<and> loadSchema memoryNode ''./schema.graphql'' = Inr keySchema
   \<and> take 3 (snd (snd (generateAll memoryNode ''./schema.graphql'' ''out'' [])))
       = [LoadSchema ''./schema.graphql'', GenerateOperations, GenerateTypes]
   \<and> list_all is_fs_step (drop 3 (snd (snd (generateAll memoryNode ''./schema.graphql'' ''out'' []))))"
proof -
  have missing: "loadSchema memoryNode ''./missing.graphql'' = Inl SchemaParseError"
    by (simp add: memoryNode_def)
  have present: "loadSchema memoryNode ''./schema.graphql'' = Inr keySchema"
    by (simp add: memoryNode_def)
  from generateAll_collects_before_writing[of memoryNode "''./missing.graphql''" "''out''" "[]"] missing
  have aborted: "generateAll memoryNode ''./missing.graphql'' ''out'' []
       = (Inl SchemaParseError, [], [LoadSchema ''./missing.graphql''])"
    by blast
  from generateAll_collects_before_writing[of memoryNode "''./schema.graphql''" "''out''" "[]"] present
  obtain r fs' fs_steps where
    "generateAll memoryNode ''./schema.graphql'' ''out'' [] =
       (r, fs', [LoadSchema ''./schema.graphql'', GenerateOperations, GenerateTypes] @ fs_steps)"
    "list_all is_fs_step fs_steps"
    by blast
  then have "take 3 (snd (snd (generateAll memoryNode ''./schema.graphql'' ''out'' [])))
       = [LoadSchema ''./schema.graphql'', GenerateOperations, GenerateTypes]"
    "list_all is_fs_step (drop 3 (snd (snd (generateAll memoryNode ''./schema.graphql'' ''out'' []))))"
    by simp_all
  with missing present aborted show ?thesis by blast
qed

text \<open>
  The steps that a run reports are the calls that it made: performed on the file system
  of the start, they give the result and the file system of the run.
\<close>

lemma replay_append:
  "replay env (xs @ ys) fs =
     (case replay env xs fs of (Inl e, fs1) \<Rightarrow> (Inl e, fs1) | (Inr u, fs1) \<Rightarrow> replay env ys fs1)"
  by (induction env xs fs rule: replay.induct) (auto split: sum.splits)

lemma write'_replay:
  "write' env path content fs = (r, fs', steps) \<Longrightarrow> replay env steps fs = (r, fs')"
  by (auto simp: write'_def split: sum.splits)

lemma write_operations_replay:
  "write_operations env output operations fs = (r, fs', steps) \<Longrightarrow> replay env steps fs = (r, fs')"
proof (induction operations arbitrary: fs r fs' steps)
  case Nil
  then show ?case by simp
next
  case (Cons operation rest)
  let ?path = "path_join env output (operation_path operation)"
  obtain r1 fs1 steps1 where w: "write' env ?path (op_content operation) fs = (r1, fs1, steps1)"
    by (cases "write' env ?path (op_content operation) fs") auto
  note w1 = write'_replay[OF w]
  show ?case
  proof (cases r1)
    case (Inl e)
    with Cons.prems w w1 show ?thesis by simp
  next
    case (Inr u)
    obtain r2 fs2 steps2 where rest: "write_operations env output rest fs1 = (r2, fs2, steps2)"
      by (cases "write_operations env output rest fs1") auto
    from Cons.prems w Inr rest have eq: "steps = steps1 @ steps2" "r = r2" "fs' = fs2" by simp_all
    from Cons.IH[OF rest] w1 Inr eq show ?thesis
      by (simp add: replay_append)
  qed
qed

lemma write_types_replay:
  "write_types env output types fs = (r, fs', steps) \<Longrightarrow> replay env steps fs = (r, fs')"
proof (induction types arbitrary: fs r fs' steps)
  case Nil
  then show ?case by simp
next
  case (Cons t rest)
  let ?path = "path_join env output (type_path t)"
  obtain r1 fs1 steps1 where w: "write' env ?path (ty_content t) fs = (r1, fs1, steps1)"
    by (cases "write' env ?path (ty_content t) fs") auto
  note w1 = write'_replay[OF w]
  show ?case
  proof (cases r1)
    case (Inl e)
    with Cons.prems w w1 show ?thesis by simp
  next
    case (Inr u)
    obtain r2 fs2 steps2 where rest: "write_types env output rest fs1 = (r2, fs2, steps2)"
      by (cases "write_types env output rest fs1") auto
    from Cons.prems w Inr rest have eq: "steps = steps1 @ steps2" "r = r2" "fs' = fs2" by simp_all
    from Cons.IH[OF rest] w1 Inr eq show ?thesis
      by (simp add: replay_append)
  qed
qed

lemma generateAll_replay:
  assumes load: "loadSchema env input = Inr schema"
    and run: "generateAll env input output fs = (r, fs', steps)"
  shows "replay env steps fs = (r, fs')"
proof -
  obtain r1 fs1 steps1 where ops:
    "write_operations env output (generateOperations schema) fs = (r1, fs1, steps1)"
    by (cases "write_operations env output (generateOperations schema) fs") auto
  note o = write_operations_replay[OF ops]
  show ?thesis
  proof (cases r1)
    case (Inl e)
    with load run ops have "steps = [LoadSchema input, GenerateOperations, GenerateTypes] @ steps1"
      "r = Inl e" "fs' = fs1"
      by (simp_all add: generateAll_def Let_def)
    with o Inl show ?thesis by simp
  next
    case (Inr u)
    obtain r2 fs2 steps2 where tys:
      "write_types env output (generateTypes schema) fs1 = (r2, fs2, steps2)"
      by (cases "write_types env output (generateTypes schema) fs1") auto
    note t = write_types_replay[OF tys]
    from load run ops tys Inr
    have eq: "steps = [LoadSchema input, GenerateOperations, GenerateTypes] @ (steps1 @ steps2)"
      "r = r2" "fs' = fs2"
      by (simp_all add: generateAll_def Let_def)
    from o t Inr eq show ?thesis
      by (simp add: replay_append)
  qed
qed

lemma operation_names_eq:
  "map op_name (generateOperations schema) =
     map fst (root_fields (queryType schema)) @ map fst (root_fields (mutationType schema))
     @ map fst (root_fields (subscriptionType schema))"
  by (simp add: generateOperations_eq processFields_eq root_fields_def case_prod_unfold comp_def
      split: option.splits)

text \<open>
  Claim C10.  The operations are emitted for the fields of the query root, then of the
  mutation root, then of the subscription root, each in the order of the fields; the
  type documents are emitted in the order of the type map.  \<open>generateAll\<close> writes the
  operation documents in this order and then the type documents in this order: the files
  written are a prefix of this list, and all of it when the run succeeds.  The writes are
  the calls of \<open>writeFile\<close> on the file system: the result and the file system that
  the run leaves are those of performing its \<open>mkdir\<close> and \<open>writeFile\<close> steps, in
  order, on the file system of the start.
\<close>

theorem generateAll_order:
  assumes "loadSchema env input = Inr schema"
    and "generateAll env input output fs = (r, fs', steps)"
  shows "map op_name (generateOperations schema) =
           map fst (root_fields (queryType schema)) @ map fst (root_fields (mutationType schema))
           @ map fst (root_fields (subscriptionType schema))
     \<and> map ty_name (generateTypes schema) =
           map fst (filter (\<lambda>(typeName, t). emits_type schema typeName t) (typeMap schema))
     \<and> prefix (writes steps) (planned_writes env output schema)
     \<and> (r = Inr () \<longrightarrow> writes steps = planned_writes env output schema)
     \<and> replay env steps fs = (r, fs')"
proof -
  from generateAll_steps[OF assms] obtain fs_steps where
    s: "steps = [LoadSchema input, GenerateOperations, GenerateTypes] @ fs_steps"
    and p: "prefix (writes fs_steps) (planned_writes env output schema)"
    and a: "r = Inr () \<longrightarrow> writes fs_steps = planned_writes env output schema"
    by blast
  have w: "writes steps = writes fs_steps"
    by (simp only: s writes_fs_steps)
  from p a generateAll_replay[OF assms] show ?thesis
    by (simp only: w operation_names_eq generateTypes_names simp_thms)
qed

text \<open>
  For \<open>keySchema\<close> and a file system that accepts every call, the run succeeds and
  writes the six files in this order: the file system, empty at the start, holds them in
  this order at the end.
\<close>

theorem generateAll_order_witness:
  "loadSchema memoryNode ''./schema.graphql'' = Inr keySchema
   \<and> fst (generateAll memoryNode ''./schema.graphql'' ''out'' []) = Inr ()
   \<and> map op_name (generateOperations keySchema) = [''getKey'', ''keyChanged'', ''createKey'', ''keyChanged'']
   \<and> map ty_name (generateTypes keySchema) = [''Key'', ''Marker'']
   \<and> map fst (writes (snd (snd (generateAll memoryNode ''./schema.graphql'' ''out'' [])))) =
       [''out/query/getKey.mdx'', ''out/query/keyChanged.mdx'', ''out/mutation/createKey.mdx'',
        ''out/subscription/keyChanged.mdx'', ''out/types/Key.mdx'', ''out/types/Marker.mdx'']
   \<and> replay memoryNode (snd (snd (generateAll memoryNode ''./schema.graphql'' ''out'' []))) []
       = (Inr (), fst (snd (generateAll memoryNode ''./schema.graphql'' ''out'' [])))
   \<and> fst (snd (generateAll memoryNode ''./schema.graphql'' ''out'' []))
       = planned_writes memoryNode ''out'' keySchema
   \<and> map fst (fst (snd (generateAll memoryNode ''./schema.graphql'' ''out'' []))) =
       [''out/query/getKey.mdx'', ''out/query/keyChanged.mdx'', ''out/mutation/createKey.mdx'',
        ''out/subscription/keyChanged.mdx'', ''out/types/Key.mdx'', ''out/types/Marker.mdx'']"
proof -
  have load: "loadSchema memoryNode ''./schema.graphql'' = Inr keySchema"
    by (simp add: memoryNode_def)
  obtain r fs' steps where run:
    "generateAll memoryNode ''./schema.graphql'' ''out'' [] = (r, fs', steps)"
    by (cases "generateAll memoryNode ''./schema.graphql'' ''out'' []") auto
  have ok: "fst (generateAll memoryNode ''./schema.graphql'' ''out'' []) = Inr ()"
    by code_simp
  with run have r: "r = Inr ()" by simp
  have q: "map fst (root_fields (queryType keySchema)) = [''getKey'', ''keyChanged'']"
    and m: "map fst (root_fields (mutationType keySchema)) = [''createKey'']"
    and s: "map fst (root_fields (subscriptionType keySchema)) = [''keyChanged'']"
    and t: "map fst (filter (\<lambda>(typeName, t). emits_type keySchema typeName t) (typeMap keySchema))
              = [''Key'', ''Marker'']"
    by code_simp+
  have planned: "map fst (planned_writes memoryNode ''out'' keySchema) =
       [''out/query/getKey.mdx'', ''out/query/keyChanged.mdx'', ''out/mutation/createKey.mdx'',
        ''out/subscription/keyChanged.mdx'', ''out/types/Key.mdx'', ''out/types/Marker.mdx'']"
    by code_simp
  note order = generateAll_order[OF load run]
  have names: "map op_name (generateOperations keySchema) = [''getKey'', ''keyChanged'', ''createKey'', ''keyChanged'']"
    using order[THEN conjunct1] by (simp only: q m s append.simps)
  have tnames: "map ty_name (generateTypes keySchema) = [''Key'', ''Marker'']"
    using order[THEN conjunct2, THEN conjunct1] by (simp only: t)
  have "writes steps = planned_writes memoryNode ''out'' keySchema"
    using order[THEN conjunct2, THEN conjunct2, THEN conjunct2, THEN conjunct1] r by simp
  with run planned have written:
    "map fst (writes (snd (snd (generateAll memoryNode ''./schema.graphql'' ''out'' [])))) =
       [''out/query/getKey.mdx'', ''out/query/keyChanged.mdx'', ''out/mutation/createKey.mdx'',
        ''out/subscription/keyChanged.mdx'', ''out/types/Key.mdx'', ''out/types/Marker.mdx'']"
    by simp
  have replayed:
    "replay memoryNode (snd (snd (generateAll memoryNode ''./schema.graphql'' ''out'' []))) []
       = (Inr (), fst (snd (generateAll memoryNode ''./schema.graphql'' ''out'' [])))"
    using order[THEN conjunct2, THEN conjunct2, THEN conjunct2, THEN conjunct2] run r by simp
  have files: "fst (snd (generateAll memoryNode ''./schema.graphql'' ''out'' []))
       = planned_writes memoryNode ''out'' keySchema"
    by code_simp
  have paths: "map fst (fst (snd (generateAll memoryNode ''./schema.graphql'' ''out'' []))) =
       [''out/query/getKey.mdx'', ''out/query/keyChanged.mdx'', ''out/mutation/createKey.mdx'',
        ''out/subscription/keyChanged.mdx'', ''out/types/Key.mdx'', ''out/types/Marker.mdx'']"
    by (simp only: files planned)
  from load ok names tnames written replayed files paths show ?thesis
    by (intro conjI)
qed

section \<open>Classification\<close>

lemma processFields_kinds:
  assumes "\<And>t. root = Some t \<Longrightarrow> getOperationType schema t = kind"
  shows "map (\<lambda>operation. (op_name operation, op_type operation)) (processFields schema root []) =
     map (\<lambda>(fieldName, field). (fieldName, kind)) (root_fields root)"
proof (cases root)
  case None
  then show ?thesis by (simp add: processFields_eq root_fields_def)
next
  case (Some t)
  with assms have "getOperationType schema t = kind" by simp
  with Some show ?thesis
    by (simp add: processFields_eq root_fields_def case_prod_unfold comp_def)
qed

lemma query_root_kind: "queryType schema = Some t \<Longrightarrow> getOperationType schema t = ''query''"
  by (simp add: getOperationType_def identical_def)

lemma mutation_root_kind:
  "distinct (root_refs schema) \<Longrightarrow> mutationType schema = Some t \<Longrightarrow>
     getOperationType schema t = ''mutation''"
  by (cases "queryType schema") (simp_all add: getOperationType_def identical_def root_refs_def)

lemma subscription_root_kind:
  "distinct (root_refs schema) \<Longrightarrow> subscriptionType schema = Some t \<Longrightarrow>
     getOperationType schema t = ''subscription''"
  by (cases "queryType schema"; cases "mutationType schema")
     (simp_all add: getOperationType_def identical_def root_refs_def)

lemma operation_kinds_eq:
  assumes "distinct (root_refs schema)"
  shows "map (\<lambda>operation. (op_name operation, op_type operation)) (generateOperations schema) =
          map (\<lambda>(fieldName, field). (fieldName, ''query'')) (root_fields (queryType schema))
          @ map (\<lambda>(fieldName, field). (fieldName, ''mutation'')) (root_fields (mutationType schema))
          @ map (\<lambda>(fieldName, field). (fieldName, ''subscription''))
              (root_fields (subscriptionType schema))"
  by (simp only: generateOperations_eq map_append
      processFields_kinds[of "queryType schema" schema "''query''", OF query_root_kind]
      processFields_kinds[of "mutationType schema" schema "''mutation''", OF mutation_root_kind[OF assms]]
      processFields_kinds[of "subscriptionType schema" schema "''subscription''",
        OF subscription_root_kind[OF assms]])

lemma getOperationType_renamed:
  "getOperationType schema (t\<lparr>ot_name := n\<rparr>) = getOperationType schema t"
  by (simp add: getOperationType_def identical_def split: option.splits)

text \<open>
  Claim C2, as amended.  \<open>getOperationType\<close> answers by the first root, in the order
  query, mutation, subscription, that the owning type is identical to; an object type
  identical to none of them is classified \<open>type\<close>.  Only the identity of the type
  counts: giving it another name changes nothing.  When the root types are pairwise
  distinct objects, the walker classifies every field of the query, mutation and
  subscription root as \<open>query\<close>, \<open>mutation\<close> and \<open>subscription\<close> respectively.
\<close>

theorem getOperationType_by_identity:
  "(identical t (queryType schema) \<longrightarrow> getOperationType schema t = ''query'')
   \<and> (\<not> identical t (queryType schema) \<and> identical t (mutationType schema)
        \<longrightarrow> getOperationType schema t = ''mutation'')
   \<and> (\<not> identical t (queryType schema) \<and> \<not> identical t (mutationType schema)
        \<and> identical t (subscriptionType schema)
        \<longrightarrow> getOperationType schema t = ''subscription'')
   \<and> (\<not> identical t (queryType schema) \<and> \<not> identical t (mutationType schema)
        \<and> \<not> identical t (subscriptionType schema)
        \<longrightarrow> getOperationType schema t = ''type'')
   \<and> getOperationType schema (t\<lparr>ot_name := n\<rparr>) = getOperationType schema t
   \<and> (distinct (root_refs schema) \<longrightarrow>
        map (\<lambda>operation. (op_name operation, op_type operation)) (generateOperations schema) =
          map (\<lambda>(fieldName, field). (fieldName, ''query'')) (root_fields (queryType schema))
          @ map (\<lambda>(fieldName, field). (fieldName, ''mutation'')) (root_fields (mutationType schema))
          @ map (\<lambda>(fieldName, field). (fieldName, ''subscription''))
              (root_fields (subscriptionType schema)))"
proof (intro conjI impI)
  show "getOperationType schema (t\<lparr>ot_name := n\<rparr>) = getOperationType schema t"
    by (rule getOperationType_renamed)
next
  assume "distinct (root_refs schema)"
  then show "map (\<lambda>operation. (op_name operation, op_type operation)) (generateOperations schema) =
          map (\<lambda>(fieldName, field). (fieldName, ''query'')) (root_fields (queryType schema))
          @ map (\<lambda>(fieldName, field). (fieldName, ''mutation'')) (root_fields (mutationType schema))
          @ map (\<lambda>(fieldName, field). (fieldName, ''subscription''))
              (root_fields (subscriptionType schema))"
    by (rule operation_kinds_eq)
qed (simp_all only: getOperationType_def if_True if_False)

text \<open>
  In \<open>keySchema\<close> each root is classified by its own kind, and \<open>QueryNamesake\<close>,
  an object type that is named like the query root but is another object, is classified
  \<open>type\<close>.
\<close>

theorem getOperationType_by_identity_witness:
  "identical Query (queryType keySchema) \<and> getOperationType keySchema Query = ''query''
   \<and> \<not> identical Mutation (queryType keySchema) \<and> identical Mutation (mutationType keySchema)
   \<and> getOperationType keySchema Mutation = ''mutation''
   \<and> \<not> identical Subscription (queryType keySchema)
   \<and> \<not> identical Subscription (mutationType keySchema)
   \<and> identical Subscription (subscriptionType keySchema)
   \<and> getOperationType keySchema Subscription = ''subscription''
   \<and> ot_name QueryNamesake = ot_name Query
   \<and> \<not> identical QueryNamesake (queryType keySchema)
   \<and> \<not> identical QueryNamesake (mutationType keySchema)
   \<and> \<not> identical QueryNamesake (subscriptionType keySchema)
   \<and> getOperationType keySchema QueryNamesake = ''type''
   \<and> distinct (root_refs keySchema)
   \<and> map (\<lambda>operation. (op_name operation, op_type operation)) (generateOperations keySchema) =
       [(''getKey'', ''query''), (''keyChanged'', ''query''), (''createKey'', ''mutation''),
        (''keyChanged'', ''subscription'')]"
proof -
  have q: "identical Query (queryType keySchema)" by code_simp
  have m: "\<not> identical Mutation (queryType keySchema)" "identical Mutation (mutationType keySchema)"
    by code_simp+
  have s: "\<not> identical Subscription (queryType keySchema)"
    "\<not> identical Subscription (mutationType keySchema)"
    "identical Subscription (subscriptionType keySchema)"
    by code_simp+
  have t: "ot_name QueryNamesake = ot_name Query"
    "\<not> identical QueryNamesake (queryType keySchema)"
    "\<not> identical QueryNamesake (mutationType keySchema)"
    "\<not> identical QueryNamesake (subscriptionType keySchema)"
    by code_simp+
  have d: "distinct (root_refs keySchema)" by code_simp
  have f: "root_fields (queryType keySchema) = [(''getKey'', getKey), (''keyChanged'', keyChanged)]"
    "root_fields (mutationType keySchema) = [(''createKey'', createKey)]"
    "root_fields (subscriptionType keySchema) = [(''keyChanged'', keyChanged)]"
    by (simp_all add: keySchema_def root_fields_def Query_def Mutation_def Subscription_def)
  from getOperationType_by_identity[of Query keySchema] q
  have 1: "getOperationType keySchema Query = ''query''" by blast
  from getOperationType_by_identity[of Mutation keySchema] m
  have 2: "getOperationType keySchema Mutation = ''mutation''" by blast
  from getOperationType_by_identity[of Subscription keySchema] s
  have 3: "getOperationType keySchema Subscription = ''subscription''" by blast
  from getOperationType_by_identity[of QueryNamesake keySchema] t
  have 4: "getOperationType keySchema QueryNamesake = ''type''" by blast
  from getOperationType_by_identity[of Query keySchema] d
  have 5: "map (\<lambda>operation. (op_name operation, op_type operation)) (generateOperations keySchema) =
       [(''getKey'', ''query''), (''keyChanged'', ''query''), (''createKey'', ''mutation''),
        (''keyChanged'', ''subscription'')]"
    by (simp add: f)
  from q m s t d 1 2 3 4 5 show ?thesis by blast
qed

text \<open>
  Claim C2 as stated fails where the mutation root is also the query root: the fields of
  the mutation root are then classified \<open>query\<close>.
\<close>

theorem shared_root_classified_query:
  "mutationType sharedRootSchema = Some Root
   \<and> getOperationType sharedRootSchema Root = ''query''
   \<and> getOperationType sharedRootSchema Root \<noteq> ''mutation''
   \<and> map (\<lambda>operation. (op_name operation, op_type operation)) (generateOperations sharedRootSchema)
       = [(''getKey'', ''query''), (''getKey'', ''query'')]"
  by code_simp

text \<open>
  Claim C3.  An entry of the type map yields a type document if and only if its type is
  an object type, is identical to none of the three root operation types, and its name
  does not start with two underscores.
\<close>

theorem generateTypes_emits_iff:
  assumes "unique_keys (typeMap schema)"
    and "(typeName, t) \<in> set (typeMap schema)"
  shows "(\<exists>doc \<in> set (generateTypes schema). ty_name doc = typeName) \<longleftrightarrow>
     (\<exists>ot. t = ObjectType ot
        \<and> \<not> identical ot (queryType schema)
        \<and> \<not> identical ot (mutationType schema)
        \<and> \<not> identical ot (subscriptionType schema)
        \<and> \<not> startsWith typeName ''__'')"
proof -
  have "(\<exists>doc \<in> set (generateTypes schema). ty_name doc = typeName)
      \<longleftrightarrow> typeName \<in> set (map ty_name (generateTypes schema))"
    by auto
  also have "\<dots> \<longleftrightarrow> (\<exists>t'. (typeName, t') \<in> set (typeMap schema) \<and> emits_type schema typeName t')"
    by (simp only: generateTypes_names) force
  also have "\<dots> \<longleftrightarrow> emits_type schema typeName t"
    using assms eq_key_imp_eq_value[of "typeMap schema" typeName] unfolding unique_keys_def
    by blast
  also have "\<dots> \<longleftrightarrow> (\<exists>ot. t = ObjectType ot
        \<and> \<not> identical ot (queryType schema)
        \<and> \<not> identical ot (mutationType schema)
        \<and> \<not> identical ot (subscriptionType schema)
        \<and> \<not> startsWith typeName ''__'')"
    by (cases t) (auto simp: emits_type_def)
  finally show ?thesis .
qed

text \<open>
  In \<open>keySchema\<close> the object type \<open>Key\<close> yields a document; the query root, the
  introspection type \<open>__Schema\<close> and the enum \<open>Role\<close> yield none.
\<close>

theorem generateTypes_emits_iff_witness:
  "unique_keys (typeMap keySchema)
   \<and> (''Key'', ObjectType Key) \<in> set (typeMap keySchema)
   \<and> (\<exists>doc \<in> set (generateTypes keySchema). ty_name doc = ''Key'')
   \<and> (''Query'', ObjectType Query) \<in> set (typeMap keySchema)
   \<and> \<not> (\<exists>doc \<in> set (generateTypes keySchema). ty_name doc = ''Query'')
   \<and> (''__Schema'', ObjectType Schema_introspection) \<in> set (typeMap keySchema)
   \<and> \<not> (\<exists>doc \<in> set (generateTypes keySchema). ty_name doc = ''__Schema'')
   \<and> (''Role'', EnumType ''Role'') \<in> set (typeMap keySchema)
   \<and> \<not> (\<exists>doc \<in> set (generateTypes keySchema). ty_name doc = ''Role'')"
proof -
  have u: "unique_keys (typeMap keySchema)" by code_simp
  have key: "(''Key'', ObjectType Key) \<in> set (typeMap keySchema)"
    and query: "(''Query'', ObjectType Query) \<in> set (typeMap keySchema)"
    and intro: "(''__Schema'', ObjectType Schema_introspection) \<in> set (typeMap keySchema)"
    and role: "(''Role'', EnumType ''Role'') \<in> set (typeMap keySchema)"
    by (simp_all add: keySchema_def)
  have k: "\<not> identical Key (queryType keySchema)" "\<not> identical Key (mutationType keySchema)"
    "\<not> identical Key (subscriptionType keySchema)" "\<not> startsWith ''Key'' ''__''"
    by code_simp+
  have q: "identical Query (queryType keySchema)" by code_simp
  have i: "startsWith ''__Schema'' ''__''" by code_simp
  have 1: "\<exists>doc \<in> set (generateTypes keySchema). ty_name doc = ''Key''"
    using generateTypes_emits_iff[OF u key] k by simp
  have 2: "\<not> (\<exists>doc \<in> set (generateTypes keySchema). ty_name doc = ''Query'')"
    using generateTypes_emits_iff[OF u query] q by simp
  have 3: "\<not> (\<exists>doc \<in> set (generateTypes keySchema). ty_name doc = ''__Schema'')"
    using generateTypes_emits_iff[OF u intro] i by simp
  have 4: "\<not> (\<exists>doc \<in> set (generateTypes keySchema). ty_name doc = ''Role'')"
    using generateTypes_emits_iff[OF u role] by simp
  from u key query intro role 1 2 3 4 show ?thesis
    by (intro conjI)
qed

section \<open>Rendered documents\<close>

lemma trimEnd_append:
  "trimEnd (xs @ ys) = (if \<forall>c\<in>set ys. isWhiteSpace c then trimEnd xs else xs @ trimEnd ys)"
  by (simp add: trimEnd_def dropWhile_append)

lemma trimEnd_nonws: "s \<noteq> [] \<Longrightarrow> \<not> isWhiteSpace (last s) \<Longrightarrow> trimEnd s = s"
  by (cases s rule: rev_cases) (simp_all add: trimEnd_def)

lemma prefix_trimEnd: "p \<noteq> [] \<Longrightarrow> \<not> isWhiteSpace (last p) \<Longrightarrow> prefix p (trimEnd (p @ r))"
  by (simp add: trimEnd_append trimEnd_nonws)

lemma trimEnd_prefix: "prefix (trimEnd s) s"
  unfolding trimEnd_def
  by (metis prefix_def rev_append rev_rev_ident suffix_def suffix_dropWhile)

lemma trim_sublist: "sublist (trim s) s"
  unfolding trim_def trimStart_def
  by (meson prefix_imp_sublist sublist_order.order_trans suffix_dropWhile suffix_imp_sublist trimEnd_prefix)

lemma trim_template: "trim (CHR ''\<newline>'' # CHR ''-'' # s) = trimEnd (CHR ''-'' # s)"
  by (simp add: trim_def trimStart_def isWhiteSpace_def)

lemma operation_mdxContent_eq:
  "operation_mdxContent fieldName field =
     trimEnd (front_matter fieldName
                (case f_description field of Some d \<Rightarrow> d | None \<Rightarrow> ''Description for '' @ fieldName)
        @ ''\<newline># '' @ fieldName @ ''\<newline>\<newline>\<newline>''
        @ (case f_description field of Some d \<Rightarrow> d | None \<Rightarrow> [])
        @ ''\<newline>\<newline>''
        @ (if f_args field \<noteq> []
           then ''## Arguments\<newline>\<newline>''
                @ array_join ''\<newline>'' (map (\<lambda>arg. ''- '' @ a_name arg @ '': '' @ a_type arg) (f_args field))
           else [])
        @ ''\<newline>      '')"
  by (simp add: operation_mdxContent_def Let_def front_matter_def trim_template comp_def)

lemma type_mdxContent_eq:
  "type_mdxContent typeName t =
     trimEnd (front_matter typeName (''Type definition for '' @ typeName)
        @ ''\<newline>  # '' @ typeName @ ''\<newline>\<newline>  ''
        @ (case ot_description t of Some d \<Rightarrow> d | None \<Rightarrow> [])
        @ ''\<newline>\<newline>  ''
        @ (if ot_fields t \<noteq> []
           then ''## Fields\<newline>\<newline>''
                @ array_join ''\<newline>''
                    (map (\<lambda>(fieldName, field). ''- '' @ fieldName @ '': '' @ f_type field) (ot_fields t))
           else [])
        @ ''\<newline>\<newline> '')"
  by (simp add: type_mdxContent_def Let_def front_matter_def trim_template)

lemma front_matter_prefix:
  "prefix (front_matter title description)
     (trimEnd (front_matter title description @ CHR ''\<newline>'' # c # r))" if "\<not> isWhiteSpace c"
proof -
  have "prefix (front_matter title description @ [CHR ''\<newline>'', c])
     (trimEnd ((front_matter title description @ [CHR ''\<newline>'', c]) @ r))"
    using that by (intro prefix_trimEnd) simp_all
  then show ?thesis
    using append_prefixD by fastforce
qed

lemma operation_front_matter:
  "prefix (front_matter fieldName
            (case f_description field of Some d \<Rightarrow> d | None \<Rightarrow> ''Description for '' @ fieldName))
     (operation_mdxContent fieldName field)"
  unfolding operation_mdxContent_eq
  using front_matter_prefix[of "CHR ''#''"] by (simp add: isWhiteSpace_def)

lemma type_front_matter:
  "prefix (front_matter typeName (''Type definition for '' @ typeName))
     (type_mdxContent typeName t)"
proof -
  have "prefix (front_matter typeName (''Type definition for '' @ typeName) @ ''\<newline>  #'')
     (trimEnd ((front_matter typeName (''Type definition for '' @ typeName) @ ''\<newline>  #'') @ r))" for r
    by (intro prefix_trimEnd) (simp_all add: isWhiteSpace_def)
  then show ?thesis
    unfolding type_mdxContent_eq using append_prefixD by fastforce
qed

text \<open>
  The documents are the renderings of the members, one for each member and in the same
  order.
\<close>

lemma processFields_members:
  "list_all2 (\<lambda>(fieldName, field) operation.
       op_name operation = fieldName \<and> op_content operation = operation_mdxContent fieldName field)
     (root_fields root) (processFields schema root [])"
  by (cases root)
     (simp_all add: processFields_eq root_fields_def list_all2_map2 case_prod_unfold list.rel_refl)

lemma generateOperations_members:
  "list_all2 (\<lambda>(fieldName, field) operation.
       op_name operation = fieldName \<and> op_content operation = operation_mdxContent fieldName field)
     (operation_members schema) (generateOperations schema)"
  unfolding operation_members_def generateOperations_eq
  by (intro list_all2_appendI processFields_members)

lemma pushed_types_member:
  "pushed_types schema (typeName, t) =
     map (\<lambda>(typeName, ot). \<lparr>ty_name = typeName, ty_content = type_mdxContent typeName ot\<rparr>)
       (case t of ObjectType ot \<Rightarrow> if emits_type schema typeName t then [(typeName, ot)] else []
        | _ \<Rightarrow> [])"
  by (cases t) (simp_all add: pushed_types_def)

lemma pushed_types_members:
  "concat (map (pushed_types schema) entries) =
     map (\<lambda>(typeName, ot). \<lparr>ty_name = typeName, ty_content = type_mdxContent typeName ot\<rparr>)
       (concat (map (\<lambda>(typeName, t).
          case t of ObjectType ot \<Rightarrow> if emits_type schema typeName t then [(typeName, ot)] else []
          | _ \<Rightarrow> []) entries))"
proof (induction entries)
  case Nil
  then show ?case by simp
next
  case (Cons e entries)
  obtain typeName t where e: "e = (typeName, t)" by (cases e)
  show ?case
    by (simp only: e list.map concat.simps Cons.IH pushed_types_member map_append prod.case)
qed

lemma generateTypes_members:
  "list_all2 (\<lambda>(typeName, t) doc.
       ty_name doc = typeName \<and> ty_content doc = type_mdxContent typeName t)
     (type_members schema) (generateTypes schema)"
  by (simp add: generateTypes_eq pushed_types_members type_members_def list_all2_map2
      case_prod_unfold list.rel_refl)

text \<open>
  Claim C4.  The walk emits one document for each operation member, in order, and the
  document of a member starts with the front-matter block whose \<open>title\<close> is the raw
  field name and whose \<open>description\<close> is the description of the field when it has
  one, and \<open>Description for <name>\<close> when it has none.
\<close>

theorem operation_front_matter_title_description:
  "list_all2 (\<lambda>(fieldName, field) operation.
       op_name operation = fieldName
       \<and> prefix (front_matter fieldName
                   (case f_description field of Some d \<Rightarrow> d
                    | None \<Rightarrow> ''Description for '' @ fieldName))
            (op_content operation))
     (operation_members schema) (generateOperations schema)"
  by (rule list_all2_mono[OF generateOperations_members]) (auto simp: operation_front_matter)

text \<open>
  In \<open>keySchema\<close>, \<open>getKey\<close> has no description and \<open>createKey\<close> has one.
\<close>

theorem operation_front_matter_title_description_witness:
  "operation_members keySchema =
     [(''getKey'', getKey), (''keyChanged'', keyChanged), (''createKey'', createKey),
      (''keyChanged'', keyChanged)]
   \<and> f_description getKey = None \<and> f_description createKey = Some ''Create a key''
   \<and> prefix ''---\<newline>title: getKey\<newline>description: Description for getKey\<newline>---\<newline>''
        (op_content (generateOperations keySchema ! 0))
   \<and> prefix ''---\<newline>title: createKey\<newline>description: Create a key\<newline>---\<newline>''
        (op_content (generateOperations keySchema ! 2))"
proof -
  have members: "operation_members keySchema =
     [(''getKey'', getKey), (''keyChanged'', keyChanged), (''createKey'', createKey),
      (''keyChanged'', keyChanged)]"
    by (simp add: operation_members_def root_fields_def keySchema_def Query_def Mutation_def
        Subscription_def)
  have d: "f_description getKey = None" "f_description createKey = Some ''Create a key''"
    by (simp_all add: getKey_def createKey_def)
  from operation_front_matter_title_description[of keySchema]
  have "prefix (front_matter ''getKey'' ''Description for getKey'')
          (op_content (generateOperations keySchema ! 0))
      \<and> prefix (front_matter ''createKey'' ''Create a key'')
          (op_content (generateOperations keySchema ! 2))"
    unfolding members by (auto simp: list_all2_Cons1 d)
  with members d show ?thesis
    by (simp add: front_matter_def)
qed

text \<open>
  Claim C5 fails on the code.  The type \<open>Key\<close> has the description \<open>An API key\<close>,
  and the front matter of its document still carries the fallback
  \<open>Type definition for Key\<close>: the template of \<open>generateTypes\<close> does not read the
  description of the type there, unlike the template of \<open>processFields\<close>.
\<close>

theorem type_front_matter_ignores_description:
  "map ty_name (generateTypes keySchema) = [''Key'', ''Marker'']
   \<and> ot_description Key = Some ''An API key''
   \<and> prefix ''---\<newline>title: Key\<newline>description: Type definition for Key\<newline>---\<newline>''
        (ty_content (generateTypes keySchema ! 0))
   \<and> \<not> prefix ''---\<newline>title: Key\<newline>description: An API key\<newline>---\<newline>''
        (ty_content (generateTypes keySchema ! 0))"
  by code_simp

section \<open>Sections of a document\<close>

lemma sublist_split_at:
  assumes "c \<notin> set p"
  shows "sublist p (a @ c # b) \<longleftrightarrow> sublist p a \<or> sublist p b"
proof
  assume "sublist p (a @ c # b)"
  then consider "sublist p a" | "sublist p (c # b)"
    | xs1 xs2 where "p = xs1 @ xs2" "suffix xs1 a" "prefix xs2 (c # b)"
    unfolding sublist_append by blast
  then show "sublist p a \<or> sublist p b"
  proof cases
    case 1
    then show ?thesis by simp
  next
    case 2
    then show ?thesis
      using assms by (cases p) (auto simp: sublist_Cons_right)
  next
    case 3
    with assms have "xs2 = []" by (cases xs2) auto
    with 3 show ?thesis by auto
  qed
next
  assume "sublist p a \<or> sublist p b"
  then show "sublist p (a @ c # b)"
    by (auto simp: sublist_append sublist_Cons_right)
qed

lemma sublist_trimEnd: "sublist p (trimEnd s) \<Longrightarrow> sublist p s"
  using trimEnd_prefix[of s] prefix_imp_sublist sublist_order.order_trans by blast

lemma array_join_last:
  "items \<noteq> [] \<Longrightarrow> last items \<noteq> [] \<Longrightarrow>
     array_join sep items \<noteq> [] \<and> last (array_join sep items) = last (last items)"
  by (induction sep items rule: array_join.induct) auto

lemma array_join_heading:
  "items \<noteq> [] \<Longrightarrow> array_join ''\<newline>'' (heading # [] # items) =
     heading @ ''\<newline>\<newline>'' @ array_join ''\<newline>'' items"
  by (cases items) simp_all

lemma trimEnd_section:
  assumes "ends_in_text s" and "\<forall>c\<in>set w. isWhiteSpace c"
  shows "trimEnd (x @ s @ w) = x @ s"
proof -
  have "trimEnd (x @ s @ w) = trimEnd ((x @ s) @ w)" by simp
  also have "\<dots> = trimEnd (x @ s)"
    using assms(2) trimEnd_append[of "x @ s" w] by simp
  also have "\<dots> = x @ s"
    using assms(1) by (intro trimEnd_nonws) (simp_all add: ends_in_text_def)
  finally show ?thesis .
qed

lemma listing_ends_in_text:
  assumes "entries \<noteq> []" and "ends_in_text (snd (last entries))"
  shows "ends_in_text (listing heading entries)"
proof -
  let ?items = "map (\<lambda>(name, typeSignature). ''- '' @ name @ '': '' @ typeSignature) entries"
  have "last ?items = ''- '' @ fst (last entries) @ '': '' @ snd (last entries)"
    using assms(1) by (simp add: last_map case_prod_unfold)
  with assms(2) have "last ?items \<noteq> []" "last (last ?items) = last (snd (last entries))"
    by (simp_all add: ends_in_text_def)
  with assms show ?thesis
    using array_join_last[of "heading # [] # ?items" "''\<newline>''"]
    by (simp add: listing_def ends_in_text_def)
qed

lemma operation_arguments_listing:
  assumes "f_args field \<noteq> []" and "ends_in_text (a_type (last (f_args field)))"
  shows "suffix (listing ''## Arguments'' (map (\<lambda>arg. (a_name arg, a_type arg)) (f_args field)))
           (operation_mdxContent fieldName field)"
proof -
  let ?entries = "map (\<lambda>arg. (a_name arg, a_type arg)) (f_args field)"
  have e: "ends_in_text (listing ''## Arguments'' ?entries)"
    using assms by (intro listing_ends_in_text) (simp_all add: last_map)
  have l: "listing ''## Arguments'' ?entries =
      ''## Arguments\<newline>\<newline>''
       @ array_join ''\<newline>'' (map (\<lambda>arg. ''- '' @ a_name arg @ '': '' @ a_type arg) (f_args field))"
    using assms(1) unfolding listing_def
    by (subst array_join_heading) (simp_all add: comp_def)
  define x where "x = front_matter fieldName
        (case f_description field of Some d \<Rightarrow> d | None \<Rightarrow> ''Description for '' @ fieldName)
      @ ''\<newline># '' @ fieldName @ ''\<newline>\<newline>\<newline>''
      @ (case f_description field of Some d \<Rightarrow> d | None \<Rightarrow> []) @ ''\<newline>\<newline>''"
  have "operation_mdxContent fieldName field =
      trimEnd (x @ listing ''## Arguments'' ?entries @ ''\<newline>      '')"
    using assms(1) by (simp add: operation_mdxContent_eq l x_def)
  also have "\<dots> = x @ listing ''## Arguments'' ?entries"
    using e by (intro trimEnd_section) (simp_all add: isWhiteSpace_def)
  finally show ?thesis
    by (simp add: suffix_def)
qed

lemma type_fields_listing:
  assumes "ot_fields t \<noteq> []" and "ends_in_text (f_type (snd (last (ot_fields t))))"
  shows "suffix (listing ''## Fields''
                  (map (\<lambda>(fieldName, field). (fieldName, f_type field)) (ot_fields t)))
           (type_mdxContent typeName t)"
proof -
  let ?entries = "map (\<lambda>(fieldName, field). (fieldName, f_type field)) (ot_fields t)"
  have e: "ends_in_text (listing ''## Fields'' ?entries)"
    using assms by (intro listing_ends_in_text) (simp_all add: last_map case_prod_unfold)
  have l: "listing ''## Fields'' ?entries =
      ''## Fields\<newline>\<newline>''
       @ array_join ''\<newline>''
           (map (\<lambda>(fieldName, field). ''- '' @ fieldName @ '': '' @ f_type field) (ot_fields t))"
    using assms(1) unfolding listing_def
    by (subst array_join_heading) (simp_all add: comp_def case_prod_unfold)
  define x where "x = front_matter typeName (''Type definition for '' @ typeName)
      @ ''\<newline>  # '' @ typeName @ ''\<newline>\<newline>  ''
      @ (case ot_description t of Some d \<Rightarrow> d | None \<Rightarrow> []) @ ''\<newline>\<newline>  ''"
  have "type_mdxContent typeName t =
      trimEnd (x @ listing ''## Fields'' ?entries @ ''\<newline>\<newline> '')"
    using assms(1) by (simp add: type_mdxContent_eq l x_def)
  also have "\<dots> = x @ listing ''## Fields'' ?entries"
    using e by (intro trimEnd_section) (simp_all add: isWhiteSpace_def)
  finally show ?thesis
    by (simp add: suffix_def)
qed

lemma operation_no_arguments:
  assumes "f_args field = []"
    and "sublist ''## Arguments'' (operation_mdxContent fieldName field)"
  shows "sublist ''## Arguments'' fieldName
     \<or> (\<exists>d. f_description field = Some d \<and> sublist ''## Arguments'' d)"
proof -
  from assms(2) have "sublist ''## Arguments''
     (front_matter fieldName
                (case f_description field of Some d \<Rightarrow> d | None \<Rightarrow> ''Description for '' @ fieldName)
        @ ''\<newline># '' @ fieldName @ ''\<newline>\<newline>\<newline>''
        @ (case f_description field of Some d \<Rightarrow> d | None \<Rightarrow> [])
        @ ''\<newline>\<newline>'' @ ''\<newline>      '')"
    unfolding operation_mdxContent_eq using assms(1) by (auto dest: sublist_trimEnd)
  then show ?thesis
    by (cases "f_description field")
       (auto simp add: front_matter_def sublist_split_at sublist_Cons_right)
qed

lemma type_no_fields:
  assumes "ot_fields t = []"
    and "sublist ''## Fields'' (type_mdxContent typeName t)"
  shows "sublist ''## Fields'' typeName
     \<or> (\<exists>d. ot_description t = Some d \<and> sublist ''## Fields'' d)"
proof -
  from assms(2) have "sublist ''## Fields''
     (front_matter typeName (''Type definition for '' @ typeName)
        @ ''\<newline>  # '' @ typeName @ ''\<newline>\<newline>  ''
        @ (case ot_description t of Some d \<Rightarrow> d | None \<Rightarrow> [])
        @ ''\<newline>\<newline>  '' @ ''\<newline>\<newline> '')"
    unfolding type_mdxContent_eq using assms(1) by (auto dest: sublist_trimEnd)
  then show ?thesis
    by (cases "ot_description t")
       (auto simp add: front_matter_def sublist_split_at sublist_Cons_right)
qed

lemma trimEnd_whitespace: "\<forall>c\<in>set w. isWhiteSpace c \<Longrightarrow> trimEnd (a @ w) = trimEnd a"
  by (simp add: trimEnd_append)

lemma operation_ends_with_description:
  assumes "f_args field = []"
  shows "operation_mdxContent fieldName field =
     trimEnd (front_matter fieldName
                (case f_description field of Some d \<Rightarrow> d | None \<Rightarrow> ''Description for '' @ fieldName)
        @ ''\<newline># '' @ fieldName @ ''\<newline>\<newline>\<newline>''
        @ (case f_description field of Some d \<Rightarrow> d | None \<Rightarrow> []))"
proof -
  define x where "x = front_matter fieldName
                (case f_description field of Some d \<Rightarrow> d | None \<Rightarrow> ''Description for '' @ fieldName)
        @ ''\<newline># '' @ fieldName @ ''\<newline>\<newline>\<newline>''
        @ (case f_description field of Some d \<Rightarrow> d | None \<Rightarrow> [])"
  have "operation_mdxContent fieldName field = trimEnd (x @ ''\<newline>\<newline>\<newline>      '')"
    using assms by (simp add: operation_mdxContent_eq x_def)
  also have "\<dots> = trimEnd x"
    by (rule trimEnd_whitespace) (simp add: isWhiteSpace_def)
  finally show ?thesis
    by (simp only: x_def)
qed

lemma type_ends_with_description:
  assumes "ot_fields t = []"
  shows "type_mdxContent typeName t =
     trimEnd (front_matter typeName (''Type definition for '' @ typeName)
        @ ''\<newline>  # '' @ typeName @ ''\<newline>\<newline>  ''
        @ (case ot_description t of Some d \<Rightarrow> d | None \<Rightarrow> []))"
proof -
  define x where "x = front_matter typeName (''Type definition for '' @ typeName)
        @ ''\<newline>  # '' @ typeName @ ''\<newline>\<newline>  ''
        @ (case ot_description t of Some d \<Rightarrow> d | None \<Rightarrow> [])"
  have "type_mdxContent typeName t = trimEnd (x @ ''\<newline>\<newline>  \<newline>\<newline> '')"
    using assms by (simp add: type_mdxContent_eq x_def)
  also have "\<dots> = trimEnd x"
    by (rule trimEnd_whitespace) (simp add: isWhiteSpace_def)
  finally show ?thesis
    by (simp only: x_def)
qed

lemma lines_of_nonempty: "lines_of s \<noteq> []"
  by (induction s) (auto split: list.splits)

lemma lines_of_append:
  "lines_of (a @ CHR ''\<newline>'' # b) = lines_of a @ lines_of b"
  by (induction a) (auto simp: lines_of_nonempty split: list.splits)

lemma lines_of_line: "CHR ''\<newline>'' \<notin> set l \<Longrightarrow> lines_of l = [l]"
  by (induction l) auto

lemma trimEnd_Cons:
  assumes "isWhiteSpace c" and "\<not> (\<forall>x\<in>set s. isWhiteSpace x)"
  shows "trimEnd (c # s) = c # trimEnd s"
  using assms trimEnd_append[of "[c]" s] by auto

lemma heading_line_kept:
  assumes "CHR ''\<newline>'' \<notin> set h" and "ends_in_text h"
  shows "h \<in> set (lines_of (trimEnd (a @ CHR ''\<newline>'' # h @ CHR ''\<newline>'' # r)))"
proof -
  let ?p = "a @ CHR ''\<newline>'' # h"
  have nl: "isWhiteSpace (CHR ''\<newline>'')" by (simp add: isWhiteSpace_def)
  have p: "trimEnd ?p = ?p"
    using assms(2) by (intro trimEnd_nonws) (simp_all add: ends_in_text_def)
  have split: "trimEnd (a @ CHR ''\<newline>'' # h @ CHR ''\<newline>'' # r) =
      (if \<forall>c\<in>set (CHR ''\<newline>'' # r). isWhiteSpace c then trimEnd ?p
       else ?p @ trimEnd (CHR ''\<newline>'' # r))"
    using trimEnd_append[of ?p "CHR ''\<newline>'' # r"] by simp
  show ?thesis
  proof (cases "\<forall>c\<in>set r. isWhiteSpace c")
    case True
    with nl split p have "trimEnd (a @ CHR ''\<newline>'' # h @ CHR ''\<newline>'' # r) = ?p"
      by simp
    then show ?thesis
      using assms(1) by (simp add: lines_of_append lines_of_line)
  next
    case False
    with nl split have "trimEnd (a @ CHR ''\<newline>'' # h @ CHR ''\<newline>'' # r) =
       a @ CHR ''\<newline>'' # h @ CHR ''\<newline>'' # trimEnd r"
      by (simp add: trimEnd_Cons)
    then show ?thesis
      using assms(1) lines_of_append[of h "trimEnd r"] lines_of_append[of a "h @ CHR ''\<newline>'' # trimEnd r"]
      by (simp add: lines_of_line)
  qed
qed

lemma name_heading:
  assumes "name \<noteq> []" and "\<forall>c\<in>set name. \<not> isWhiteSpace c"
  shows "CHR ''\<newline>'' \<notin> set (indent @ ''# '' @ name) \<or> CHR ''\<newline>'' \<in> set indent"
    and "ends_in_text (indent @ ''# '' @ name)"
proof -
  have "isWhiteSpace (CHR ''\<newline>'')" by (simp add: isWhiteSpace_def)
  with assms(2) show "CHR ''\<newline>'' \<notin> set (indent @ ''# '' @ name) \<or> CHR ''\<newline>'' \<in> set indent"
    by auto
  from assms show "ends_in_text (indent @ ''# '' @ name)"
    by (simp add: ends_in_text_def)
qed

lemma operation_heading_line:
  assumes "fieldName \<noteq> []" and "\<forall>c\<in>set fieldName. \<not> isWhiteSpace c"
  shows "''# '' @ fieldName \<in> set (lines_of (operation_mdxContent fieldName field))"
proof -
  have "operation_mdxContent fieldName field =
     trimEnd (front_matter fieldName
                (case f_description field of Some d \<Rightarrow> d | None \<Rightarrow> ''Description for '' @ fieldName)
        @ CHR ''\<newline>'' # (''# '' @ fieldName) @ CHR ''\<newline>'' # (''\<newline>\<newline>''
        @ (case f_description field of Some d \<Rightarrow> d | None \<Rightarrow> [])
        @ ''\<newline>\<newline>''
        @ (if f_args field \<noteq> []
           then ''## Arguments\<newline>\<newline>''
                @ array_join ''\<newline>'' (map (\<lambda>arg. ''- '' @ a_name arg @ '': '' @ a_type arg) (f_args field))
           else [])
        @ ''\<newline>      ''))"
    by (simp add: operation_mdxContent_eq)
  moreover have "CHR ''\<newline>'' \<notin> set (''# '' @ fieldName)" "ends_in_text (''# '' @ fieldName)"
    using name_heading[OF assms, of "[]"] by simp_all
  then have "''# '' @ fieldName \<in> set (lines_of (trimEnd
      (a @ CHR ''\<newline>'' # (''# '' @ fieldName) @ CHR ''\<newline>'' # r)))" for a r
    by (rule heading_line_kept)
  ultimately show ?thesis
    by (simp only:)
qed

lemma type_heading_line:
  assumes "typeName \<noteq> []" and "\<forall>c\<in>set typeName. \<not> isWhiteSpace c"
  shows "''  # '' @ typeName \<in> set (lines_of (type_mdxContent typeName t))"
proof -
  have "type_mdxContent typeName t =
     trimEnd (front_matter typeName (''Type definition for '' @ typeName)
        @ CHR ''\<newline>'' # (''  # '' @ typeName) @ CHR ''\<newline>'' # (''\<newline>  ''
        @ (case ot_description t of Some d \<Rightarrow> d | None \<Rightarrow> [])
        @ ''\<newline>\<newline>  ''
        @ (if ot_fields t \<noteq> []
           then ''## Fields\<newline>\<newline>''
                @ array_join ''\<newline>''
                    (map (\<lambda>(fieldName, field). ''- '' @ fieldName @ '': '' @ f_type field) (ot_fields t))
           else [])
        @ ''\<newline>\<newline> ''))"
    by (simp add: type_mdxContent_eq)
  moreover have "CHR ''\<newline>'' \<notin> set (''  # '' @ typeName)" "ends_in_text (''  # '' @ typeName)"
    using name_heading[OF assms, of "''  ''"] by simp_all
  then have "''  # '' @ typeName \<in> set (lines_of (trimEnd
      (a @ CHR ''\<newline>'' # (''  # '' @ typeName) @ CHR ''\<newline>'' # r)))" for a r
    by (rule heading_line_kept)
  ultimately show ?thesis
    by (simp only:)
qed

section \<open>Sections and headings of the documents\<close>

text \<open>
  Claim C6, as amended.  The documents are the renderings of the members.  The rendering of
  an operation without arguments whose own name and description do not contain the text
  \<open>## Arguments\<close> does not contain this text: no section is rendered, not even an
  empty one.  The rendering of an operation with arguments ends with the section
  \<open>## Arguments\<close>, which lists every argument as \<open>- <name>: <typeSignature>\<close> in
  the order of \<open>field.args\<close>.  The same holds for a type, its fields and the section
  \<open>## Fields\<close>.  The last type signature is taken not to end in white space, which
  \<open>trim\<close> would remove; no signature that \<open>toString\<close> returns does.
\<close>

theorem sections_listed_or_omitted:
  "list_all2 (\<lambda>(fieldName, field) operation.
       op_content operation = operation_mdxContent fieldName field)
     (operation_members schema) (generateOperations schema)
   \<and> list_all2 (\<lambda>(typeName, t) doc. ty_content doc = type_mdxContent typeName t)
     (type_members schema) (generateTypes schema)
   \<and> (f_args field = [] \<and> \<not> sublist ''## Arguments'' fieldName
        \<and> (\<forall>d. f_description field = Some d \<longrightarrow> \<not> sublist ''## Arguments'' d)
        \<longrightarrow> \<not> sublist ''## Arguments'' (operation_mdxContent fieldName field))
   \<and> (f_args field \<noteq> [] \<and> ends_in_text (a_type (last (f_args field)))
        \<longrightarrow> suffix (listing ''## Arguments'' (map (\<lambda>arg. (a_name arg, a_type arg)) (f_args field)))
              (operation_mdxContent fieldName field))
   \<and> (ot_fields t = [] \<and> \<not> sublist ''## Fields'' typeName
        \<and> (\<forall>d. ot_description t = Some d \<longrightarrow> \<not> sublist ''## Fields'' d)
        \<longrightarrow> \<not> sublist ''## Fields'' (type_mdxContent typeName t))
   \<and> (ot_fields t \<noteq> [] \<and> ends_in_text (f_type (snd (last (ot_fields t))))
        \<longrightarrow> suffix (listing ''## Fields''
                      (map (\<lambda>(fieldName, field). (fieldName, f_type field)) (ot_fields t)))
              (type_mdxContent typeName t))"
proof (intro conjI impI)
  show "list_all2 (\<lambda>(fieldName, field) operation.
       op_content operation = operation_mdxContent fieldName field)
     (operation_members schema) (generateOperations schema)"
    by (rule list_all2_mono[OF generateOperations_members]) auto
  show "list_all2 (\<lambda>(typeName, t) doc. ty_content doc = type_mdxContent typeName t)
     (type_members schema) (generateTypes schema)"
    by (rule list_all2_mono[OF generateTypes_members]) auto
next
  assume "f_args field = [] \<and> \<not> sublist ''## Arguments'' fieldName
        \<and> (\<forall>d. f_description field = Some d \<longrightarrow> \<not> sublist ''## Arguments'' d)"
  then show "\<not> sublist ''## Arguments'' (operation_mdxContent fieldName field)"
    using operation_no_arguments[of field fieldName] by blast
next
  assume "f_args field \<noteq> [] \<and> ends_in_text (a_type (last (f_args field)))"
  then show "suffix (listing ''## Arguments'' (map (\<lambda>arg. (a_name arg, a_type arg)) (f_args field)))
              (operation_mdxContent fieldName field)"
    using operation_arguments_listing[of field fieldName] by blast
next
  assume "ot_fields t = [] \<and> \<not> sublist ''## Fields'' typeName
        \<and> (\<forall>d. ot_description t = Some d \<longrightarrow> \<not> sublist ''## Fields'' d)"
  then show "\<not> sublist ''## Fields'' (type_mdxContent typeName t)"
    using type_no_fields[of t typeName] by blast
next
  assume "ot_fields t \<noteq> [] \<and> ends_in_text (f_type (snd (last (ot_fields t))))"
  then show "suffix (listing ''## Fields''
                      (map (\<lambda>(fieldName, field). (fieldName, f_type field)) (ot_fields t)))
              (type_mdxContent typeName t)"
    using type_fields_listing[of t typeName] by blast
qed

text \<open>
  The four cases on members of \<open>keySchema\<close>: \<open>keyChanged\<close> has no arguments and
  \<open>createKey\<close> has two; \<open>Marker\<close> has no fields and \<open>Key\<close> has two.
\<close>

theorem sections_listed_or_omitted_witness:
  "f_args keyChanged = [] \<and> \<not> sublist ''## Arguments'' ''keyChanged''
   \<and> f_description keyChanged = None
   \<and> \<not> sublist ''## Arguments'' (operation_mdxContent ''keyChanged'' keyChanged)
   \<and> f_args createKey \<noteq> [] \<and> ends_in_text (a_type (last (f_args createKey)))
   \<and> suffix ''## Arguments\<newline>\<newline>- name: String!\<newline>- ttl: Int''
        (operation_mdxContent ''createKey'' createKey)
   \<and> ot_fields Marker = [] \<and> \<not> sublist ''## Fields'' ''Marker'' \<and> ot_description Marker = None
   \<and> \<not> sublist ''## Fields'' (type_mdxContent ''Marker'' Marker)
   \<and> ot_fields Key \<noteq> [] \<and> ends_in_text (f_type (snd (last (ot_fields Key))))
   \<and> suffix ''## Fields\<newline>\<newline>- id: ID!\<newline>- name: String'' (type_mdxContent ''Key'' Key)"
proof -
  have a: "f_args keyChanged = []" "\<not> sublist ''## Arguments'' ''keyChanged''"
    "f_description keyChanged = None"
    by code_simp+
  have b: "f_args createKey \<noteq> []" "ends_in_text (a_type (last (f_args createKey)))"
    by code_simp+
  have c: "ot_fields Marker = []" "\<not> sublist ''## Fields'' ''Marker''" "ot_description Marker = None"
    by code_simp+
  have d: "ot_fields Key \<noteq> []" "ends_in_text (f_type (snd (last (ot_fields Key))))"
    by code_simp+
  have lb: "listing ''## Arguments'' (map (\<lambda>arg. (a_name arg, a_type arg)) (f_args createKey)) =
      ''## Arguments\<newline>\<newline>- name: String!\<newline>- ttl: Int''"
    by code_simp
  have ld: "listing ''## Fields'' (map (\<lambda>(fieldName, field). (fieldName, f_type field)) (ot_fields Key)) =
      ''## Fields\<newline>\<newline>- id: ID!\<newline>- name: String''"
    by code_simp
  note omitted = sections_listed_or_omitted[where field = keyChanged and fieldName = "''keyChanged''"
      and t = Marker and typeName = "''Marker''" and schema = keySchema,
      THEN conjunct2, THEN conjunct2]
  note listed = sections_listed_or_omitted[where field = createKey and fieldName = "''createKey''"
      and t = Key and typeName = "''Key''" and schema = keySchema,
      THEN conjunct2, THEN conjunct2]
  have 1: "\<not> sublist ''## Arguments'' (operation_mdxContent ''keyChanged'' keyChanged)"
    using omitted[THEN conjunct1] a by simp
  have 2: "suffix ''## Arguments\<newline>\<newline>- name: String!\<newline>- ttl: Int''
        (operation_mdxContent ''createKey'' createKey)"
    using listed[THEN conjunct2, THEN conjunct1] b by (simp only: lb simp_thms)
  have 3: "\<not> sublist ''## Fields'' (type_mdxContent ''Marker'' Marker)"
    using omitted[THEN conjunct2, THEN conjunct2, THEN conjunct1] c by simp
  have 4: "suffix ''## Fields\<newline>\<newline>- id: ID!\<newline>- name: String'' (type_mdxContent ''Key'' Key)"
    using listed[THEN conjunct2, THEN conjunct2, THEN conjunct2] d
    by (simp only: ld simp_thms)
  from a b c d 1 2 3 4 show ?thesis
    by (intro conjI)
qed

text \<open>
  Claim C6 as stated, for every member without arguments or fields, fails where the
  description of the member is itself the text of the heading: the document of the field
  \<open>ping\<close>, which has no arguments, ends with the line \<open>## Arguments\<close>, and the
  document of the type \<open>Note\<close>, which has no fields, ends with the line
  \<open>  ## Fields\<close>, the description body of either template.
\<close>

theorem description_renders_as_empty_section:
  "f_args ping = []
   \<and> operation_mdxContent ''ping'' ping =
       ''---\<newline>title: ping\<newline>description: ## Arguments\<newline>---\<newline>\<newline># ping\<newline>\<newline>\<newline>## Arguments''
   \<and> sublist ''## Arguments'' (operation_mdxContent ''ping'' ping)
   \<and> ot_fields Note = []
   \<and> type_mdxContent ''Note'' Note =
       ''---\<newline>title: Note\<newline>description: Type definition for Note\<newline>---\<newline>\<newline>  # Note\<newline>\<newline>  ## Fields''
   \<and> sublist ''## Fields'' (type_mdxContent ''Note'' Note)"
  by code_simp

text \<open>
  Claim C7.  The documents being the renderings of the members, the rendering of an
  operation and the rendering of a type both have a level-1 heading line with the raw
  name of the member: the line \<open># <name>\<close> in an operation document, and this line
  after two spaces of indentation, which Markdown allows before a heading, in a type
  document.  The name is taken to be a GraphQL name: not empty and without white space.
\<close>

theorem heading_lines:
  "list_all2 (\<lambda>(fieldName, field) operation.
       op_content operation = operation_mdxContent fieldName field)
     (operation_members schema) (generateOperations schema)
   \<and> list_all2 (\<lambda>(typeName, t) doc. ty_content doc = type_mdxContent typeName t)
     (type_members schema) (generateTypes schema)
   \<and> (fieldName \<noteq> [] \<and> (\<forall>c\<in>set fieldName. \<not> isWhiteSpace c)
        \<longrightarrow> (\<exists>line \<in> set (lines_of (operation_mdxContent fieldName field)).
               level1_heading fieldName line)
            \<and> ''# '' @ fieldName \<in> set (lines_of (operation_mdxContent fieldName field)))
   \<and> (typeName \<noteq> [] \<and> (\<forall>c\<in>set typeName. \<not> isWhiteSpace c)
        \<longrightarrow> (\<exists>line \<in> set (lines_of (type_mdxContent typeName t)).
               level1_heading typeName line)
            \<and> ''  # '' @ typeName \<in> set (lines_of (type_mdxContent typeName t)))"
proof (intro conjI impI)
  show "list_all2 (\<lambda>(fieldName, field) operation.
       op_content operation = operation_mdxContent fieldName field)
     (operation_members schema) (generateOperations schema)"
    by (rule list_all2_mono[OF generateOperations_members]) auto
  show "list_all2 (\<lambda>(typeName, t) doc. ty_content doc = type_mdxContent typeName t)
     (type_members schema) (generateTypes schema)"
    by (rule list_all2_mono[OF generateTypes_members]) auto
next
  assume h: "fieldName \<noteq> [] \<and> (\<forall>c\<in>set fieldName. \<not> isWhiteSpace c)"
  then show l: "''# '' @ fieldName \<in> set (lines_of (operation_mdxContent fieldName field))"
    using operation_heading_line by blast
  have "level1_heading fieldName (''# '' @ fieldName)"
    by (simp add: level1_heading_def)
  with l show "\<exists>line \<in> set (lines_of (operation_mdxContent fieldName field)).
               level1_heading fieldName line"
    by blast
next
  assume h: "typeName \<noteq> [] \<and> (\<forall>c\<in>set typeName. \<not> isWhiteSpace c)"
  then show l: "''  # '' @ typeName \<in> set (lines_of (type_mdxContent typeName t))"
    using type_heading_line by blast
  have "level1_heading typeName (''  # '' @ typeName)"
    by (simp add: level1_heading_def eval_nat_numeral)
  with l show "\<exists>line \<in> set (lines_of (type_mdxContent typeName t)).
               level1_heading typeName line"
    by blast
qed

text \<open>The operation \<open>getKey\<close> and the type \<open>Key\<close>, with the lines of the document of \<open>Key\<close>.\<close>

theorem heading_lines_witness:
  "''# getKey'' \<in> set (lines_of (operation_mdxContent ''getKey'' getKey))
   \<and> level1_heading ''getKey'' ''# getKey''
   \<and> ''  # Key'' \<in> set (lines_of (type_mdxContent ''Key'' Key))
   \<and> level1_heading ''Key'' ''  # Key''
   \<and> lines_of (type_mdxContent ''Key'' Key) =
       [''---'', ''title: Key'', ''description: Type definition for Key'', ''---'', [],
        ''  # Key'', [], ''  An API key'', [], ''  ## Fields'', [], ''- id: ID!'', ''- name: String'']"
proof -
  have a: "''getKey'' \<noteq> []" "\<forall>c\<in>set ''getKey''. \<not> isWhiteSpace c"
    by (simp_all add: isWhiteSpace_def)
  have b: "''Key'' \<noteq> []" "\<forall>c\<in>set ''Key''. \<not> isWhiteSpace c"
    by (simp_all add: isWhiteSpace_def)
  note h = heading_lines[where fieldName = "''getKey''" and field = getKey
      and typeName = "''Key''" and t = Key and schema = keySchema]
  have 1: "''# getKey'' \<in> set (lines_of (operation_mdxContent ''getKey'' getKey))"
    using h[THEN conjunct2, THEN conjunct2, THEN conjunct1] a by simp
  have 2: "''  # Key'' \<in> set (lines_of (type_mdxContent ''Key'' Key))"
    using h[THEN conjunct2, THEN conjunct2, THEN conjunct2] b by simp
  have 3: "level1_heading ''getKey'' ''# getKey''" "level1_heading ''Key'' ''  # Key''"
    by code_simp+
  have 4: "lines_of (type_mdxContent ''Key'' Key) =
       [''---'', ''title: Key'', ''description: Type definition for Key'', ''---'', [],
        ''  # Key'', [], ''  An API key'', [], ''  ## Fields'', [], ''- id: ID!'', ''- name: String'']"
    by code_simp
  from 1 2 3 4 show ?thesis by (intro conjI)
qed

section \<open>Titles\<close>

text \<open>
  With the boundary before digits, the formatter gives \<open>Request Id 30\<close> for
  \<open>requestId30\<close> and fails the test of the repository; \<open>idToTitle\<close> is therefore the
  formatter without it.
\<close>

lemma digit_boundary_fails_test:
  "format_title True ''requestId30'' = ''Request Id 30''
   \<and> \<not> test_Operation_ID_to_Title (format_title True)"
  by code_simp

lemma idToTitle_eq: "idToTitle s = format_title False s"
  using digit_boundary_fails_test by (simp add: idToTitle_def)

text \<open>
  Claim C9, as amended.  The title formatter passes the test of the repository: it
  inserts no boundary before the digits of \<open>requestId30\<close>, which yields
  \<open>Request Id30\<close>, while \<open>getKey\<close> yields \<open>Get Key\<close> and \<open>requestId-30\<close> yields
  \<open>Request Id 30\<close>.
\<close>

theorem idToTitle_values:
  "test_Operation_ID_to_Title idToTitle
   \<and> idToTitle ''requestId30'' = ''Request Id30''
   \<and> idToTitle ''getKey'' = ''Get Key''
   \<and> idToTitle ''requestId-30'' = ''Request Id 30''"
  by code_simp

text \<open>Claim C9 as stated fails: \<open>requestId30\<close> does not yield \<open>Request Id 30\<close>.\<close>

theorem idToTitle_requestId30:
  "idToTitle ''requestId30'' = ''Request Id30'' \<and> idToTitle ''requestId30'' \<noteq> ''Request Id 30''"
  by code_simp

end
